theory Spec2Isabelle
  imports Complex_Main "HOL-Library.Word"
begin

section \<open>Numbers, bytes and pixel buffers\<close>

text \<open>
  The recolouring engine computes on JavaScript numbers. They are modelled as reals:
  rounding error, overflow and the IEEE special values are outside the model, except
  where a division by zero is reachable from well-formed input (a tolerance of 0); there
  the result has a type with a value for NaN. A loop variable that starts at
  \<open>Infinity\<close> is an \<open>option\<close>, with \<open>None\<close> for \<open>Infinity\<close>.

  \<open>ImageData.data\<close> is a \<open>Uint8ClampedArray\<close> holding four bytes per pixel in the
  order R, G, B, A; its length is always \<open>4 * width * height\<close>. The model keeps the
  bytes grouped by pixel, so that the byte index \<open>idx = 4 * i\<close> of the source is the
  pixel index \<open>i\<close> here.
\<close>

type_synonym byte = "8 word"

type_synonym pixel = "byte \<times> byte \<times> byte \<times> byte"

record ImageData =
  width :: nat
  height :: nat
  data :: "pixel list"

text \<open>\<open>Math.round\<close> rounds to the nearest integer, a half towards plus infinity.\<close>

definition Math_round :: "real \<Rightarrow> int" where
  "Math_round x = \<lfloor>x + 1 / 2\<rfloor>"

text \<open>
  Storing a number into a \<open>Uint8ClampedArray\<close> clamps it to 0..255. Every number the
  engine stores is an integer already (a byte read from the buffer, or a result of
  \<open>Math.round\<close>).
\<close>

definition toUint8Clamped :: "int \<Rightarrow> byte" where
  "toUint8Clamped x = word_of_int (max 0 (min 255 x))"

definition num :: "byte \<Rightarrow> real" where
  "num w = real (unat w)"

section \<open>ImageProcessor\<close>

text \<open>The loop \<open>for (i = 0; i < data.length; i += 4 * n)\<close> visits every \<open>n\<close>-th pixel.\<close>

fun everyNth :: "nat \<Rightarrow> 'a list \<Rightarrow> 'a list" where
  "everyNth n [] = []"
| "everyNth n (p # ps) = p # everyNth n (drop (n - 1) ps)"

definition getDominantColor :: "ImageData \<Rightarrow> int \<times> int \<times> int" where
  "getDominantColor imageData =
     (let (totalR, totalG, totalB, pixelCount) =
            fold (\<lambda>(r, g, b, a) (totalR, totalG, totalB, pixelCount).
                    if unat a > 128
                    then (totalR + unat r, totalG + unat g, totalB + unat b, pixelCount + 1)
                    else (totalR, totalG, totalB, pixelCount))
                 (everyNth 10 (data imageData)) (0, 0, 0, 0 :: nat)
      in if pixelCount = 0 then (128, 128, 128)
         else (Math_round (real totalR / real pixelCount),
               Math_round (real totalG / real pixelCount),
               Math_round (real totalB / real pixelCount)))"

text \<open>
  \<open>rgbToHsl\<close> is applied to colour channels, numbers between 0 and 255: bytes of the
  buffer, parsed hex colours, the dominant colour or a target colour. There no divisor
  below vanishes.
\<close>

definition rgbToHsl :: "real \<Rightarrow> real \<Rightarrow> real \<Rightarrow> real \<times> real \<times> real" where
  "rgbToHsl r0 g0 b0 =
     (let r = r0 / 255; g = g0 / 255; b = b0 / 255;
          mx = max (max r g) b;
          mn = min (min r g) b;
          l = (mx + mn) / 2
      in if mx \<noteq> mn
         then let d = mx - mn;
                  s = (if l > 1 / 2 then d / (2 - mx - mn) else d / (mx + mn));
                  h = (if mx = r then ((g - b) / d + (if g < b then 6 else 0)) / 6
                       else if mx = g then ((b - r) / d + 2) / 6
                       else ((r - g) / d + 4) / 6)
              in (h * 360, s * 100, l * 100)
         else (0 * 360, 0 * 100, l * 100))"

definition hue2rgb :: "real \<Rightarrow> real \<Rightarrow> real \<Rightarrow> real" where
  "hue2rgb p q t0 =
     (let t1 = (if t0 < 0 then t0 + 1 else t0);
          t = (if t1 > 1 then t1 - 1 else t1)
      in if t < 1 / 6 then p + (q - p) * 6 * t
         else if t < 1 / 2 then q
         else if t < 2 / 3 then p + (q - p) * (2 / 3 - t) * 6
         else p)"

definition hslToRgb :: "real \<Rightarrow> real \<Rightarrow> real \<Rightarrow> int \<times> int \<times> int" where
  "hslToRgb h0 s0 l0 =
     (let h = h0 / 360; s = s0 / 100; l = l0 / 100
      in if s = 0
         then (Math_round (l * 255), Math_round (l * 255), Math_round (l * 255))
         else let q = (if l < 1 / 2 then l * (1 + s) else l + s - l * s);
                  p = 2 * l - q
              in (Math_round (hue2rgb p q (h + 1 / 3) * 255),
                  Math_round (hue2rgb p q h * 255),
                  Math_round (hue2rgb p q (h - 1 / 3) * 255)))"

text \<open>
  The remainder operator \<open>%\<close> on numbers truncates the quotient towards zero, so the
  result has the sign of the dividend.
\<close>

definition js_rem :: "real \<Rightarrow> real \<Rightarrow> real" where
  "js_rem x y = x - y * of_int (if x / y < 0 then \<lceil>x / y\<rceil> else \<lfloor>x / y\<rfloor>)"

definition applyHslAdjustment :: "ImageData \<Rightarrow> int \<times> int \<times> int \<Rightarrow> ImageData" where
  "applyHslAdjustment imageData targetRgb =
     (let (dominantR, dominantG, dominantB) = getDominantColor imageData;
          (dominantH, dominantS, dominantL) =
             rgbToHsl (of_int dominantR) (of_int dominantG) (of_int dominantB);
          (targetR, targetG, targetB) = targetRgb;
          (targetH, targetS, targetL) =
             rgbToHsl (of_int targetR) (of_int targetG) (of_int targetB);
          hueShift = targetH - dominantH;
          saturationRatio = (if dominantS > 0 then targetS / dominantS else 1);
          lightnessShift = targetL - dominantL
      in \<lparr>width = width imageData, height = height imageData,
          data = map (\<lambda>(r, g, b, a).
                   let (h, s, l) = rgbToHsl (num r) (num g) (num b);
                       newH = js_rem (h + hueShift + 360) 360;
                       newS = max 0 (min 100 (s * saturationRatio));
                       newL = max 0 (min 100 (l + lightnessShift));
                       (newR, newG, newB) = hslToRgb newH newS newL
                   in (toUint8Clamped newR, toUint8Clamped newG, toUint8Clamped newB, a))
                 (data imageData)\<rparr>)"

section \<open>Hex colours\<close>

text \<open>
  Both processors parse colours with
  \<^verbatim>\<open>/^#?([a-f\d]{2})([a-f\d]{2})([a-f\d]{2})$/i\<close> and \<open>parseInt(_, 16)\<close>, and fall back
  to mid-gray when the string does not match.
\<close>

definition hexDigit :: "char \<Rightarrow> int option" where
  "hexDigit c =
     (let n = (of_char c :: nat)
      in if 48 \<le> n \<and> n \<le> 57 then Some (int n - 48)
         else if 97 \<le> n \<and> n \<le> 102 then Some (int n - 87)
         else if 65 \<le> n \<and> n \<le> 70 then Some (int n - 55)
         else None)"

definition hexToRgb :: "string \<Rightarrow> int \<times> int \<times> int" where
  "hexToRgb hex =
     (let body = (case hex of [] \<Rightarrow> [] | c # cs \<Rightarrow> if c = CHR ''#'' then cs else hex)
      in case map hexDigit body of
           [Some r1, Some r2, Some g1, Some g2, Some b1, Some b2] \<Rightarrow>
             (16 * r1 + r2, 16 * g1 + g2, 16 * b1 + b2)
         | _ \<Rightarrow> (128, 128, 128))"

section \<open>MultiRegionImageProcessor\<close>

type_synonym hsl = "real \<times> real \<times> real"

record ColorRegion =
  id' :: string
  name :: string
  centroidHsl :: hsl
  targetColor :: "string option"
  pixelCount :: nat

text \<open>\<open>PixelHsl\<close>: the components \<open>h\<close>, \<open>s\<close>, \<open>l\<close> and the pixel index.\<close>

type_synonym PixelHsl = "hsl \<times> nat"

definition hslDistance :: "hsl \<Rightarrow> hsl \<Rightarrow> real" where
  "hslDistance a b =
     (case a of (ah, as, al) \<Rightarrow> case b of (bh, bs, bl) \<Rightarrow>
        let hueDiff0 = \<bar>ah - bh\<bar>;
            hueDiff = (if hueDiff0 > 180 then 360 - hueDiff0 else hueDiff0);
            avgSat = (as + bs) / 2;
            hueWeight = avgSat / 100;
            satDiff = \<bar>as - bs\<bar>;
            lightDiff = \<bar>al - bl\<bar>
        in sqrt ((hueDiff * hueWeight)\<^sup>2 + satDiff\<^sup>2 + lightDiff\<^sup>2))"

text \<open>
  \<open>Array.prototype.reduce\<close> without an initial value throws a \<open>TypeError\<close> on an empty
  array.
\<close>

datatype error = TypeError

text \<open>
  The running minimum starts at \<open>Infinity\<close>, written \<open>None\<close>; every distance is below it.
\<close>

definition minDistOf :: "(string \<times> real) list \<Rightarrow> real option" where
  "minDistOf distances =
     fold (\<lambda>(regionId, dist) minDist.
             case minDist of None \<Rightarrow> Some dist
             | Some m \<Rightarrow> if dist < m then Some dist else Some m)
          distances None"

text \<open>
  The body of the pixel loop of \<open>generateRegionMask\<close>: the weight of one pixel. The
  divisor \<open>falloffDivisor\<close> vanishes only at sharpness \<open>40 / 39\<close>, which is no
  double-precision number, so the quotient below is never a division by zero. When
  \<open>allRegions\<close> is empty the soft loop does not run and \<open>totalWeight\<close> stays 0.
\<close>

definition regionMaskAt ::
    "pixel \<Rightarrow> ColorRegion \<Rightarrow> ColorRegion list \<Rightarrow> real \<Rightarrow> bool \<Rightarrow> error + real" where
  "regionMaskAt px region allRegions sharpness hardMask =
     (case px of (r, g, b, a) \<Rightarrow>
        let falloffDivisor = 50 + (1 - sharpness) * 1950
        in if unat a < 128 then Inr 0
           else
             let pixelHsl = rgbToHsl (num r) (num g) (num b);
                 distances = map (\<lambda>otherRegion.
                               (id' otherRegion, hslDistance pixelHsl (centroidHsl otherRegion)))
                             allRegions
             in if hardMask
                then (case distances of
                        [] \<Rightarrow> Inl TypeError
                      | d0 # ds \<Rightarrow>
                          let closestRegion =
                                fold (\<lambda>curr mn. if snd curr < snd mn then curr else mn) ds d0
                          in Inr (if fst closestRegion = id' region then 1 else 0))
                else (case minDistOf distances of
                        None \<Rightarrow> Inr 0
                      | Some minDist \<Rightarrow>
                          let (totalWeight, regionWeight) =
                                fold (\<lambda>(regionId, dist) (totalWeight, regionWeight).
                                        let relDist = dist - minDist;
                                            weight = exp (- relDist * relDist / falloffDivisor)
                                        in (totalWeight + weight,
                                            if regionId = id' region then weight else regionWeight))
                                     distances (0, 0)
                          in Inr (if totalWeight > 0 then regionWeight / totalWeight else 0)))"

text \<open>Running a fallible loop body over a list: the first error ends the loop.\<close>

fun forEach :: "('a \<Rightarrow> error + 'b) \<Rightarrow> 'a list \<Rightarrow> error + 'b list" where
  "forEach f [] = Inr []"
| "forEach f (x # xs) =
     (case f x of Inl e \<Rightarrow> Inl e
      | Inr y \<Rightarrow> (case forEach f xs of Inl e \<Rightarrow> Inl e | Inr ys \<Rightarrow> Inr (y # ys)))"

definition generateRegionMask ::
    "ImageData \<Rightarrow> ColorRegion \<Rightarrow> ColorRegion list \<Rightarrow> real \<Rightarrow> bool \<Rightarrow> error + real list" where
  "generateRegionMask imageData region allRegions sharpness hardMask =
     forEach (\<lambda>px. regionMaskAt px region allRegions sharpness hardMask) (data imageData)"

text \<open>
  \<open>masks\<close> and \<open>shifts\<close> are \<open>Map\<close>s keyed by region id; a later \<open>set\<close> under the
  same id replaces the earlier entry.
\<close>

fun generateMasks ::
    "ImageData \<Rightarrow> ColorRegion list \<Rightarrow> ColorRegion list \<Rightarrow> real \<Rightarrow> bool \<Rightarrow>
     (string \<rightharpoonup> real list) \<Rightarrow> error + (string \<rightharpoonup> real list)" where
  "generateMasks imageData [] regions sharpness hardMask masks = Inr masks"
| "generateMasks imageData (region # rest) regions sharpness hardMask masks =
     (case generateRegionMask imageData region regions sharpness hardMask of
        Inl e \<Rightarrow> Inl e
      | Inr mask' \<Rightarrow>
          generateMasks imageData rest regions sharpness hardMask (masks(id' region \<mapsto> mask')))"

text \<open>
  A shift is \<open>(hueShift, satRatio, lightShift, targetS)\<close>. Active regions carry a target
  colour; on \<open>null\<close> the regular expression would be matched against the string
  \<open>null\<close> and give mid-gray.
\<close>

type_synonym shift = "real \<times> real \<times> real \<times> real"

definition regionShift :: "ColorRegion \<Rightarrow> shift" where
  "regionShift region =
     (let (targetR, targetG, targetB) =
            hexToRgb (case targetColor region of None \<Rightarrow> ''null'' | Some hex \<Rightarrow> hex);
          (targetH, targetS, targetL) =
            rgbToHsl (of_int targetR) (of_int targetG) (of_int targetB);
          (centroidH, centroidS, centroidL) = centroidHsl region
      in (targetH - centroidH,
          if centroidS > 0 then targetS / centroidS else 1,
          targetL - centroidL,
          targetS))"

definition regionShifts :: "ColorRegion list \<Rightarrow> (string \<rightharpoonup> shift)" where
  "regionShifts activeRegions =
     fold (\<lambda>region shifts. shifts(id' region \<mapsto> regionShift region)) activeRegions Map.empty"

text \<open>
  The body of the pixel loop of \<open>applyMultiRegionAdjustment\<close> for pixel \<open>i\<close>. Every
  active region has an entry in \<open>masks\<close> and in \<open>shifts\<close>, so the lookups succeed.
\<close>

definition adjustPixel ::
    "(string \<rightharpoonup> real list) \<Rightarrow> (string \<rightharpoonup> shift) \<Rightarrow> ColorRegion list \<Rightarrow> nat \<Rightarrow> pixel \<Rightarrow> pixel"
  where
  "adjustPixel masks shifts activeRegions i px =
     (case px of (r, g, b, a) \<Rightarrow>
        if unat a < 128 then (r, g, b, a)
        else
          let (h, s, l) = rgbToHsl (num r) (num g) (num b);
              (finalR, finalG, finalB, totalWeight) =
                fold (\<lambda>region (finalR, finalG, finalB, totalWeight).
                        case (masks (id' region), shifts (id' region)) of
                          (Some mask', Some (hueShift, satRatio, lightShift, targetS)) \<Rightarrow>
                            let weight = mask' ! i
                            in if weight < 1 / 1000 then (finalR, finalG, finalB, totalWeight)
                               else
                                 let targetSatWeight = min 1 (targetS / 30);
                                     originalSatWeight = min 1 (s / 20);
                                     hueShiftWeight = targetSatWeight * originalSatWeight;
                                     effectiveHueShift = hueShift * hueShiftWeight;
                                     regionH = js_rem (h + effectiveHueShift + 360) 360;
                                     regionS = max 0 (min 100 (s * satRatio));
                                     regionL = max 0 (min 100 (l + lightShift));
                                     (rr, rg, rb) = hslToRgb regionH regionS regionL
                                 in (finalR + of_int rr * weight, finalG + of_int rg * weight,
                                     finalB + of_int rb * weight, totalWeight + weight)
                        | _ \<Rightarrow> (finalR, finalG, finalB, totalWeight))
                     activeRegions (0, 0, 0, 0 :: real)
          in if totalWeight > 0
             then (toUint8Clamped (Math_round (finalR / totalWeight)),
                   toUint8Clamped (Math_round (finalG / totalWeight)),
                   toUint8Clamped (Math_round (finalB / totalWeight)), a)
             else (r, g, b, a))"

definition applyMultiRegionAdjustment ::
    "ImageData \<Rightarrow> ColorRegion list \<Rightarrow> real \<Rightarrow> bool \<Rightarrow> error + ImageData" where
  "applyMultiRegionAdjustment imageData regions sharpness hardMask =
     (let activeRegions = filter (\<lambda>r. targetColor r \<noteq> None) regions
      in if length activeRegions = 0
         then Inr \<lparr>width = width imageData, height = height imageData, data = data imageData\<rparr>
         else
           (case generateMasks imageData activeRegions regions sharpness hardMask Map.empty of
              Inl e \<Rightarrow> Inl e
            | Inr masks \<Rightarrow>
                let shifts = regionShifts activeRegions
                in Inr \<lparr>width = width imageData, height = height imageData,
                        data = map (\<lambda>(i, px). adjustPixel masks shifts activeRegions i px)
                                 (zip [0 ..< length (data imageData)] (data imageData))\<rparr>))"

subsection \<open>Region detection\<close>

text \<open>
  \<open>Math.random\<close> is the only ambient input of the engine. It is a parameter of the
  model: \<open>random n\<close> is the number returned by the \<open>n\<close>-th call, and the functions that
  call it pass on the number of calls made so far. \<open>Math.random\<close> returns a number in
  \<open>[0, 1)\<close>, so the index computed from it is within the array.
\<close>

definition randomPixel :: "PixelHsl list \<Rightarrow> real \<Rightarrow> PixelHsl" where
  "randomPixel pixels u = pixels ! nat \<lfloor>u * real (length pixels)\<rfloor>"

text \<open>Comparisons with a running extremum that starts at \<open>Infinity\<close> (\<open>None\<close>).\<close>

definition lessInf :: "real \<Rightarrow> real option \<Rightarrow> bool" where
  "lessInf d m = (case m of None \<Rightarrow> True | Some v \<Rightarrow> d < v)"

definition greaterInf :: "real option \<Rightarrow> real option \<Rightarrow> bool" where
  "greaterInf a b =
     (case b of None \<Rightarrow> False
      | Some bv \<Rightarrow> (case a of None \<Rightarrow> True | Some av \<Rightarrow> av > bv))"

definition minInf :: "real option \<Rightarrow> real \<Rightarrow> real option" where
  "minInf m d = (case m of None \<Rightarrow> Some d | Some v \<Rightarrow> Some (min v d))"

definition samplePixelsAsHsl :: "ImageData \<Rightarrow> PixelHsl list" where
  "samplePixelsAsHsl imageData =
     map (\<lambda>(i, (r, g, b, a)). (rgbToHsl (num r) (num g) (num b), i))
       (filter (\<lambda>(i, (r, g, b, a)). \<not> unat a < 128)
          (everyNth 4 (zip [0 ..< length (data imageData)] (data imageData))))"

definition farthestPixel :: "PixelHsl list \<Rightarrow> PixelHsl list \<Rightarrow> PixelHsl" where
  "farthestPixel pixels centroids =
     snd (fold (\<lambda>pixel (maxDist, bestPixel).
                  let minDistToCentroid =
                        fold (\<lambda>centroid m. minInf m (hslDistance (fst pixel) (fst centroid)))
                             centroids None
                  in if greaterInf minDistToCentroid maxDist
                     then (minDistToCentroid, pixel)
                     else (maxDist, bestPixel))
               pixels (Some (- 1), pixels ! 0))"

definition initializeCentroids :: "(nat \<Rightarrow> real) \<Rightarrow> PixelHsl list \<Rightarrow> nat \<Rightarrow> PixelHsl list" where
  "initializeCentroids random pixels k =
     (if length pixels = 0 then []
      else fold (\<lambda>i centroids. centroids @ [farthestPixel pixels centroids])
                [1 ..< k] [randomPixel pixels (random 0)])"

definition assignPixelsToCentroids :: "PixelHsl list \<Rightarrow> PixelHsl list \<Rightarrow> nat list" where
  "assignPixelsToCentroids pixels centroids =
     map (\<lambda>pixel.
            snd (fold (\<lambda>i (minDist, assignment).
                         let dist = hslDistance (fst pixel) (fst (centroids ! i))
                         in if lessInf dist minDist then (Some dist, i)
                            else (minDist, assignment))
                      [0 ..< length centroids] (None, 0)))
         pixels"

text \<open>\<open>Math.atan2\<close> on numbers that are not NaN.\<close>

definition Math_atan2 :: "real \<Rightarrow> real \<Rightarrow> real" where
  "Math_atan2 y x =
     (if x > 0 then arctan (y / x)
      else if x < 0 then (if y \<ge> 0 then arctan (y / x) + pi else arctan (y / x) - pi)
      else if y > 0 then pi / 2
      else if y < 0 then - (pi / 2)
      else 0)"

text \<open>
  The accumulators of one cluster, \<open>(hSin, hCos, s, l, count)\<close>: the arrays \<open>hSin\<close>,
  \<open>hCos\<close> and \<open>sums\<close> of the source, kept side by side.
\<close>

type_synonym clusterSum = "real \<times> real \<times> real \<times> real \<times> nat"

definition accumulate :: "PixelHsl list \<Rightarrow> nat list \<Rightarrow> nat \<Rightarrow> clusterSum list" where
  "accumulate pixels assignments k =
     fold (\<lambda>i sums'.
             let cluster = assignments ! i;
                 (ph, ps, pl) = fst (pixels ! i);
                 hRad = ph * pi / 180;
                 (hSin, hCos, sumS, sumL, count) = sums' ! cluster
             in sums'[cluster := (hSin + sin hRad, hCos + cos hRad, sumS + ps, sumL + pl, count + 1)])
          [0 ..< length pixels] (replicate k (0, 0, 0, 0, 0))"

fun centroidsOfSums ::
    "(nat \<Rightarrow> real) \<Rightarrow> nat \<Rightarrow> PixelHsl list \<Rightarrow> clusterSum list \<Rightarrow> PixelHsl list \<times> nat" where
  "centroidsOfSums random n pixels [] = ([], n)"
| "centroidsOfSums random n pixels ((hSin, hCos, sumS, sumL, count) # sums') =
     (if count = 0
      then (let (rest, n') = centroidsOfSums random (n + 1) pixels sums'
            in (randomPixel pixels (random n) # rest, n'))
      else (let avgHRad = Math_atan2 (hSin / real count) (hCos / real count);
                avgH0 = avgHRad * 180 / pi;
                avgH = (if avgH0 < 0 then avgH0 + 360 else avgH0);
                (rest, n') = centroidsOfSums random n pixels sums'
            in (((avgH, sumS / real count, sumL / real count), 0) # rest, n')))"

definition recalculateCentroids ::
    "(nat \<Rightarrow> real) \<Rightarrow> nat \<Rightarrow> PixelHsl list \<Rightarrow> nat list \<Rightarrow> nat \<Rightarrow> PixelHsl list \<times> nat" where
  "recalculateCentroids random n pixels assignments k =
     centroidsOfSums random n pixels (accumulate pixels assignments k)"

definition generateRegionName :: "hsl \<Rightarrow> string" where
  "generateRegionName centroid =
     (case centroid of (h, s, l) \<Rightarrow>
        if s < 15
        then (if l < 30 then ''Dark Gray'' else if l > 70 then ''Light Gray'' else ''Gray'')
        else
          let colorName =
                (if h < 15 \<or> h \<ge> 345 then ''Red''
                 else if h < 45 then ''Orange''
                 else if h < 75 then ''Yellow''
                 else if h < 150 then ''Green''
                 else if h < 195 then ''Cyan''
                 else if h < 255 then ''Blue''
                 else if h < 285 then ''Purple''
                 else ''Magenta'')
          in if l < 30 then ''Dark '' @ colorName
             else if l > 70 then ''Light '' @ colorName
             else colorName)"

text \<open>The decimal digits of an index, for the template string \<open>region-${index}\<close>.\<close>

fun decimal :: "nat \<Rightarrow> string" where
  "decimal n =
     (if n < 10 then [''0123456789'' ! n]
      else decimal (n div 10) @ [''0123456789'' ! (n mod 10)])"

text \<open>
  The k-means loop, at most \<open>maxIterations\<close> passes; \<open>left\<close> counts the passes that
  remain. The number of calls of \<open>Math.random\<close> so far is threaded through.
\<close>

fun iterateCentroids ::
    "nat \<Rightarrow> (nat \<Rightarrow> real) \<Rightarrow> nat \<Rightarrow> PixelHsl list \<Rightarrow> nat \<Rightarrow> PixelHsl list \<Rightarrow> PixelHsl list" where
  "iterateCentroids 0 random n pixels regionCount centroids = centroids"
| "iterateCentroids (Suc left) random n pixels regionCount centroids =
     (let assignments = assignPixelsToCentroids pixels centroids;
          (newCentroids, n') = recalculateCentroids random n pixels assignments regionCount;
          converged = list_all (\<lambda>j. \<not> hslDistance (fst (centroids ! j)) (fst (newCentroids ! j)) > 1)
                        [0 ..< regionCount];
          centroids' = fold (\<lambda>j cs. cs[j := newCentroids ! j]) [0 ..< regionCount] centroids
      in if converged then centroids'
         else iterateCentroids left random n' pixels regionCount centroids')"

text \<open>
  \<open>Array.prototype.sort\<close> is stable; the comparator \<open>b.pixelCount - a.pixelCount\<close>
  orders by descending pixel count. The model follows the code for a region count of at
  least 1.
\<close>

definition detectColorRegions :: "(nat \<Rightarrow> real) \<Rightarrow> ImageData \<Rightarrow> nat \<Rightarrow> ColorRegion list" where
  "detectColorRegions random imageData regionCount =
     (let pixels = samplePixelsAsHsl imageData
      in if length pixels = 0 then []
         else
           let centroids0 = initializeCentroids random pixels regionCount;
               maxIterations = 10;
               centroids = iterateCentroids maxIterations random 1 pixels regionCount centroids0;
               assignments = assignPixelsToCentroids pixels centroids;
               counts = fold (\<lambda>assignment cs. cs[assignment := cs ! assignment + 1])
                          assignments (replicate regionCount (0 :: nat));
               regions = map (\<lambda>(index, centroid).
                                \<lparr>id' = ''region-'' @ decimal index,
                                 name = generateRegionName (fst centroid),
                                 centroidHsl = fst centroid,
                                 targetColor = None,
                                 pixelCount = counts ! index\<rparr>)
                             (zip [0 ..< length centroids] centroids)
           in sort_key (\<lambda>region. - int (pixelCount region)) regions)"

section \<open>ColorReplacementProcessor\<close>

record ColorReplacement =
  id' :: string
  sourceColor :: string
  targetColor :: string
  tolerance :: real
  enabled :: bool

text \<open>
  A number that may be NaN. The selection strength \<open>1 - distance / maxDistance\<close> is
  computed only when \<open>distance <= maxDistance\<close>; a distance is never negative, so with
  \<open>maxDistance = 0\<close> the quotient is \<open>0 / 0\<close>, which is NaN.
\<close>

datatype number = NaN | Finite real

definition colorDistance :: "real \<Rightarrow> real \<Rightarrow> real \<Rightarrow> real \<Rightarrow> real \<Rightarrow> real \<Rightarrow> real" where
  "colorDistance h1 s1 l1 h2 s2 l2 =
     (let hueDiff0 = \<bar>h1 - h2\<bar>;
          hueDiff = (if hueDiff0 > 180 then 360 - hueDiff0 else hueDiff0);
          avgSat = (s1 + s2) / 2;
          hueWeight = avgSat / 100;
          satDiff = \<bar>s1 - s2\<bar>;
          lightDiff = \<bar>l1 - l2\<bar>
      in sqrt ((hueDiff * hueWeight)\<^sup>2 + satDiff\<^sup>2 + lightDiff\<^sup>2))"

definition strengthOf :: "real \<Rightarrow> real \<Rightarrow> number" where
  "strengthOf distance maxDistance =
     (if maxDistance = 0 then NaN else Finite (1 - distance / maxDistance))"

text \<open>
  The body of the pixel loop of \<open>generateSelectionMask\<close>. \<open>Math.pow\<close> of NaN is NaN.
\<close>

definition selectionAt :: "hsl \<Rightarrow> real \<Rightarrow> pixel \<Rightarrow> number" where
  "selectionAt source maxDistance px =
     (case px of (r, g, b, a) \<Rightarrow> case source of (sourceH, sourceS, sourceL) \<Rightarrow>
        if unat a < 128 then Finite 0
        else
          let (h, s, l) = rgbToHsl (num r) (num g) (num b);
              distance = colorDistance h s l sourceH sourceS sourceL
          in if distance \<le> maxDistance
             then (case strengthOf distance maxDistance of
                     NaN \<Rightarrow> NaN
                   | Finite strength \<Rightarrow> Finite (strength powr (1 / 2)))
             else Finite 0)"

definition generateSelectionMask :: "ImageData \<Rightarrow> string \<Rightarrow> real \<Rightarrow> number list" where
  "generateSelectionMask imageData sourceColorHex tolerance' =
     (let (sourceR, sourceG, sourceB) = hexToRgb sourceColorHex;
          source = rgbToHsl (of_int sourceR) (of_int sourceG) (of_int sourceB);
          maxDistance = tolerance' * (3 / 2)
      in map (selectionAt source maxDistance) (data imageData))"

text \<open>
  \<open>calculateAverageSourceColor\<close>: the accumulators are
  \<open>(sinH, cosH, totalS, totalL, totalWeight)\<close>. A NaN weight makes every one of them NaN
  (\<open>None\<close>), and then every component of the result is NaN (\<open>None\<close>): \<open>NaN === 0\<close> is
  false, and \<open>Math.atan2\<close> and the quotients of NaN are NaN.
\<close>

definition calculateAverageSourceColor :: "ImageData \<Rightarrow> string \<Rightarrow> real \<Rightarrow> hsl option" where
  "calculateAverageSourceColor imageData sourceColorHex tolerance' =
     (let (sourceR, sourceG, sourceB) = hexToRgb sourceColorHex;
          (sourceH, sourceS, sourceL) =
            rgbToHsl (of_int sourceR) (of_int sourceG) (of_int sourceB);
          maxDistance = tolerance' * (3 / 2);
          totals =
            fold (\<lambda>(r, g, b, a) totals.
                    if unat a < 128 then totals
                    else
                      let (h, s, l) = rgbToHsl (num r) (num g) (num b);
                          distance = colorDistance h s l sourceH sourceS sourceL
                      in if distance \<le> maxDistance
                         then (case (strengthOf distance maxDistance, totals) of
                                 (Finite weight, Some (sinH, cosH, totalS, totalL, totalWeight)) \<Rightarrow>
                                   let hRad = h * pi / 180
                                   in Some (sinH + sin hRad * weight * s,
                                            cosH + cos hRad * weight * s,
                                            totalS + s * weight,
                                            totalL + l * weight,
                                            totalWeight + weight)
                               | _ \<Rightarrow> None)
                         else totals)
                 (data imageData) (Some (0, 0, 0, 0, 0))
      in case totals of
           None \<Rightarrow> None
         | Some (sinH, cosH, totalS, totalL, totalWeight) \<Rightarrow>
             if totalWeight = 0 then Some (sourceH, sourceS, sourceL)
             else
               let avgH0 = Math_atan2 sinH cosH * 180 / pi;
                   avgH = (if avgH0 < 0 then avgH0 + 360 else avgH0)
               in Some (avgH, totalS / totalWeight, totalL / totalWeight))"

text \<open>
  The data prepared for one replacement. The shifts are
  \<open>Some (hueShift, lightShift)\<close>, or \<open>None\<close> when the average source colour is NaN; the
  ratio \<open>avgSourceS > 0 ? targetS / avgSourceS : 1\<close> is then 1.
\<close>

record replacementData =
  source :: hsl
  target :: hsl
  shifts :: "(real \<times> real) option"
  satRatio :: real
  maxDistance :: real

definition prepareReplacement :: "ImageData \<Rightarrow> ColorReplacement \<Rightarrow> replacementData" where
  "prepareReplacement imageData r =
     (let avgSource = calculateAverageSourceColor imageData (sourceColor r) (tolerance r);
          (targetR, targetG, targetB) = hexToRgb (targetColor r);
          (targetH, targetS, targetL) =
            rgbToHsl (of_int targetR) (of_int targetG) (of_int targetB);
          (sourceR, sourceG, sourceB) = hexToRgb (sourceColor r)
      in \<lparr>source = rgbToHsl (of_int sourceR) (of_int sourceG) (of_int sourceB),
          target = (targetH, targetS, targetL),
          shifts = (case avgSource of None \<Rightarrow> None
                    | Some (avgSourceH, avgSourceS, avgSourceL) \<Rightarrow>
                        Some (targetH - avgSourceH, targetL - avgSourceL)),
          satRatio = (case avgSource of None \<Rightarrow> 1
                      | Some (avgSourceH, avgSourceS, avgSourceL) \<Rightarrow>
                          if avgSourceS > 0 then targetS / avgSourceS else 1),
          maxDistance = tolerance r * (3 / 2)\<rparr>)"

text \<open>
  The search for the best matching replacement of a pixel: the state is
  \<open>(bestMatch, bestDistance, bestStrength)\<close>, starting at \<open>(null, Infinity, 0)\<close>.
\<close>

definition bestMatchOf ::
    "hsl \<Rightarrow> replacementData list \<Rightarrow> replacementData option \<times> real option \<times> number" where
  "bestMatchOf pixelHsl rds =
     (case pixelHsl of (h, s, l) \<Rightarrow>
        fold (\<lambda>rd (bestMatch, bestDistance, bestStrength).
                case source rd of (sourceH, sourceS, sourceL) \<Rightarrow>
                  let distance = colorDistance h s l sourceH sourceS sourceL
                  in if distance \<le> maxDistance rd \<and> lessInf distance bestDistance
                     then (Some rd, Some distance, strengthOf distance (maxDistance rd))
                     else (bestMatch, bestDistance, bestStrength))
             rds (None, None, Finite 0))"

text \<open>
  The recoloured pixel. With NaN shifts the new lightness is NaN, \<open>hslToRgb\<close> returns
  NaN in every channel, and a NaN stored into the buffer becomes 0.
\<close>

definition replacePixel :: "replacementData \<Rightarrow> real \<Rightarrow> pixel \<Rightarrow> pixel" where
  "replacePixel bestMatch bestStrength px =
     (case px of (r, g, b, a) \<Rightarrow>
        let (h, s, l) = rgbToHsl (num r) (num g) (num b)
        in case shifts bestMatch of
             None \<Rightarrow> (0, 0, 0, a)
           | Some (hueShift, lightShift) \<Rightarrow>
               let (targetH, targetS, targetL) = target bestMatch;
                   newS = max 0 (min 100 (s * satRatio bestMatch));
                   newL = max 0 (min 100 (l + lightShift));
                   newH =
                     (if s < 8 then targetH
                      else if s < 20
                      then (let blendFactor = (s - 8) / 12;
                                shiftedH = js_rem (h + hueShift + 360) 360;
                                hueDiff0 = shiftedH - targetH;
                                hueDiff1 = (if hueDiff0 > 180 then hueDiff0 - 360 else hueDiff0);
                                hueDiff = (if hueDiff1 < - 180 then hueDiff1 + 360 else hueDiff1)
                            in js_rem (targetH + hueDiff * blendFactor + 360) 360)
                      else js_rem (h + hueShift + 360) 360);
                   (adjR, adjG, adjB) = hslToRgb newH newS newL;
                   blend = bestStrength powr (7 / 10)
               in (toUint8Clamped (Math_round (num r + (of_int adjR - num r) * blend)),
                   toUint8Clamped (Math_round (num g + (of_int adjG - num g) * blend)),
                   toUint8Clamped (Math_round (num b + (of_int adjB - num b) * blend)),
                   a))"

definition applyReplacements :: "ImageData \<Rightarrow> ColorReplacement list \<Rightarrow> ImageData" where
  "applyReplacements imageData replacements =
     (let activeReplacements = filter (\<lambda>r. enabled r \<and> targetColor r \<noteq> []) replacements
      in if length activeReplacements = 0
         then \<lparr>width = width imageData, height = height imageData, data = data imageData\<rparr>
         else
           let rds = map (prepareReplacement imageData) activeReplacements
           in \<lparr>width = width imageData, height = height imageData,
               data = map (\<lambda>(r, g, b, a).
                        if unat a < 128 then (r, g, b, a)
                        else (case bestMatchOf (rgbToHsl (num r) (num g) (num b)) rds of
                                (Some bestMatch, bestDistance, Finite bestStrength) \<Rightarrow>
                                  if bestStrength > 0
                                  then replacePixel bestMatch bestStrength (r, g, b, a)
                                  else (r, g, b, a)
                              | _ \<Rightarrow> (r, g, b, a)))
                      (data imageData)\<rparr>)"

section \<open>Auxiliary definitions for the properties\<close>

text \<open>The hue that \<open>rgbToHsl\<close> computes, as a fraction of the full turn.\<close>

definition hueOf :: "real \<Rightarrow> real \<Rightarrow> real \<Rightarrow> real" where
  "hueOf R G B =
     (let mx = max (max R G) B; mn = min (min R G) B; d = mx - mn
      in if mx = R then ((G - B) / d + (if G < B then 6 else 0)) / 6
         else if mx = G then ((B - R) / d + 2) / 6
         else ((R - G) / d + 4) / 6)"

text \<open>
  The dominant colour as the specification words it: the rounded mean over the sampled
  pixels whose alpha is at least 128, and mid-gray when there is none.
\<close>

definition dominantColorSpec :: "ImageData \<Rightarrow> int \<times> int \<times> int" where
  "dominantColorSpec imageData =
     (let opaque = filter (\<lambda>(r, g, b, a). unat a \<ge> 128) (everyNth 10 (data imageData));
          n = length opaque
      in if n = 0 then (128, 128, 128)
         else (Math_round (real (sum_list (map (\<lambda>(r, g, b, a). unat r) opaque)) / real n),
               Math_round (real (sum_list (map (\<lambda>(r, g, b, a). unat g) opaque)) / real n),
               Math_round (real (sum_list (map (\<lambda>(r, g, b, a). unat b) opaque)) / real n)))"

text \<open>The alpha byte of a pixel, and the alpha channel of a buffer.\<close>

definition alphaOf :: "pixel \<Rightarrow> byte" where
  "alphaOf px = (case px of (r, g, b, a) \<Rightarrow> a)"

definition alphaChannel :: "ImageData \<Rightarrow> byte list" where
  "alphaChannel imageData = map alphaOf (data imageData)"

text \<open>
  The weights that the masks of all regions give to pixel \<open>i\<close>: \<open>generateRegionMask\<close> is
  called once per region of the list, each time with the whole list as \<open>allRegions\<close>.
\<close>

definition maskWeights ::
    "ImageData \<Rightarrow> ColorRegion list \<Rightarrow> real \<Rightarrow> bool \<Rightarrow> nat \<Rightarrow> (error + real) list" where
  "maskWeights imageData regions sharpness hardMask i =
     map (\<lambda>region. case generateRegionMask imageData region regions sharpness hardMask of
                      Inl e \<Rightarrow> Inl e
                    | Inr mask' \<Rightarrow> Inr (mask' ! i))
         regions"

text \<open>The weight \<open>exp(-relDist * relDist / falloffDivisor)\<close> of the soft mask, named.\<close>

definition falloffWeight :: "real \<Rightarrow> real \<Rightarrow> real \<Rightarrow> real" where
  "falloffWeight minDist falloffDivisor d =
     (let relDist = d - minDist in exp (- relDist * relDist / falloffDivisor))"

text \<open>A buffer of one opaque black pixel and two regions with different ids.\<close>

definition onePixelImage :: ImageData where
  "onePixelImage = \<lparr>width = 1, height = 1, data = [(0, 0, 0, 255)]\<rparr>"

definition twoRegions :: "ColorRegion list" where
  "twoRegions =
     [\<lparr>ColorRegion.id' = ''region-0'', name = ''Dark Gray'', centroidHsl = (0, 0, 0),
        targetColor = None, pixelCount = 1\<rparr>,
      \<lparr>ColorRegion.id' = ''region-1'', name = ''Dark Gray'', centroidHsl = (0, 0, 10),
        targetColor = None, pixelCount = 0\<rparr>]"

text \<open>
  A row of five opaque pixels, black at index 0 and white at index 4: the two pixels
  that region detection samples.
\<close>

definition twoToneImage :: ImageData where
  "twoToneImage = \<lparr>width = 5, height = 1,
      data = [(0, 0, 0, 255), (0, 0, 0, 255), (0, 0, 0, 255), (255, 255, 255, 255),
              (255, 255, 255, 255)]\<rparr>"

section \<open>Colour space conversion\<close>

subsection \<open>The piecewise linear ramp of \<open>hslToRgb\<close>\<close>

lemma hue2rgb_up:
  fixes x :: real
  assumes "0 \<le> x" "x \<le> 1"
  shows "hue2rgb p q (x / 6) = p + (q - p) * x"
  using assms unfolding hue2rgb_def Let_def
  by (auto simp: algebra_simps)

lemma hue2rgb_q:
  fixes t :: real
  assumes "1 / 6 \<le> t" "t \<le> 1 / 2"
  shows "hue2rgb p q t = q"
proof (cases "t = 1 / 2")
  case True
  show ?thesis unfolding True hue2rgb_def Let_def by (simp add: field_simps)
next
  case False
  then show ?thesis using assms unfolding hue2rgb_def Let_def by auto
qed

lemma hue2rgb_down:
  fixes x :: real
  assumes "0 \<le> x" "x \<le> 1"
  shows "hue2rgb p q ((4 - x) / 6) = p + (q - p) * x"
proof (cases "x = 0")
  case True
  then show ?thesis unfolding hue2rgb_def Let_def by simp
next
  case False
  then have "(4 - x) / 6 < 2 / 3" "\<not> (4 - x) / 6 < 1 / 2" "\<not> (4 - x) / 6 < 1 / 6"
    "\<not> (4 - x) / 6 < 0" "\<not> (4 - x) / 6 > 1"
    using assms by auto
  then show ?thesis unfolding hue2rgb_def Let_def by (simp add: field_simps)
qed

lemma hue2rgb_p:
  fixes t :: real
  assumes "2 / 3 \<le> t" "t \<le> 1"
  shows "hue2rgb p q t = p"
  using assms unfolding hue2rgb_def Let_def by auto

lemma hue2rgb_wrap_neg:
  fixes t :: real
  assumes "t < 0" "- 1 \<le> t"
  shows "hue2rgb p q t = hue2rgb p q (t + 1)"
  using assms unfolding hue2rgb_def Let_def by auto

lemma hue2rgb_wrap_pos:
  fixes t :: real
  assumes "1 < t" "t \<le> 2"
  shows "hue2rgb p q t = hue2rgb p q (t - 1)"
  using assms unfolding hue2rgb_def Let_def by auto

lemma ratio_facts:
  fixes u v d :: real
  assumes "0 \<le> u" "u \<le> d" "0 < d"
  shows "0 \<le> u / d" "u / d \<le> 1" "d * (u / d) = u"
  using assms by (auto simp: field_simps)

text \<open>The six orders of the channels: red is the greatest and blue is not above green.\<close>
lemma hue_caseA:
  fixes R G B :: real
  assumes "B \<le> G" "G \<le> R" "B < R"
  defines "h \<equiv> ((G - B) / (R - B) + 0) / 6"
  shows "hue2rgb B R (h + 1 / 3) = R \<and> hue2rgb B R h = G \<and> hue2rgb B R (h - 1 / 3) = B \<and> 0 \<le> h \<and> h < 1"
proof -
  define x where "x = (G - B) / (R - B)"
  have x: "0 \<le> x" "x \<le> 1" "(R - B) * x = G - B"
    unfolding x_def using assms by (auto intro!: ratio_facts)
  have h: "h = x / 6" by (simp add: h_def x_def)
  have 1: "hue2rgb B R h = G" unfolding h using hue2rgb_up[OF x(1,2), of B R] x(3) by simp
  have 2: "hue2rgb B R (h + 1 / 3) = R"
    using x(1,2) by (intro hue2rgb_q) (simp_all add: h field_simps)
  have "hue2rgb B R (h - 1 / 3) = hue2rgb B R (h - 1 / 3 + 1)"
    using x(1,2) by (intro hue2rgb_wrap_neg) (simp_all add: h field_simps)
  also have "\<dots> = B" using x(1,2) by (intro hue2rgb_p) (simp_all add: h field_simps)
  finally have 3: "hue2rgb B R (h - 1 / 3) = B" .
  have 4: "0 \<le> h \<and> h < 1" using x(1,2) h by argo
  show ?thesis using 1 2 3 4 by simp
qed

text \<open>Red is the greatest and green is below blue.\<close>
lemma hue_caseB:
  fixes R G B :: real
  assumes "G < B" "B \<le> R"
  defines "h \<equiv> ((G - B) / (R - G) + 6) / 6"
  shows "hue2rgb G R (h + 1 / 3) = R \<and> hue2rgb G R h = G \<and> hue2rgb G R (h - 1 / 3) = B \<and> 0 \<le> h \<and> h < 1"
proof -
  define x where "x = (B - G) / (R - G)"
  have x: "0 \<le> x" "x \<le> 1" "(R - G) * x = B - G"
    unfolding x_def using assms by (auto intro!: ratio_facts)
  have x0: "0 < x" using assms by (simp add: x_def)
  have "(G - B) / (R - G) = - x" by (simp add: x_def minus_divide_left)
  then have h: "h = (6 - x) / 6" by (simp add: h_def)
  have "hue2rgb G R (h + 1 / 3) = hue2rgb G R (h + 1 / 3 - 1)"
    using x(1,2) by (intro hue2rgb_wrap_pos) (simp_all add: h field_simps)
  also have "\<dots> = R" using x(1,2) by (intro hue2rgb_q) (simp_all add: h field_simps)
  finally have 1: "hue2rgb G R (h + 1 / 3) = R" .
  have 2: "hue2rgb G R h = G" using x(1,2) by (intro hue2rgb_p) (simp_all add: h field_simps)
  have eq: "h - 1 / 3 = (4 - x) / 6" using h by argo
  have 3: "hue2rgb G R (h - 1 / 3) = B"
    unfolding eq using hue2rgb_down[OF x(1,2), of G R] x(3) by simp
  have 4: "0 \<le> h \<and> h < 1" using x(1,2) x0 h by argo
  show ?thesis using 1 2 3 4 by simp
qed

text \<open>Green is the greatest and red is not above blue.\<close>
lemma hue_caseC:
  fixes R G B :: real
  assumes "R \<le> B" "B \<le> G" "R < G"
  defines "h \<equiv> ((B - R) / (G - R) + 2) / 6"
  shows "hue2rgb R G (h + 1 / 3) = R \<and> hue2rgb R G h = G \<and> hue2rgb R G (h - 1 / 3) = B \<and> 0 \<le> h \<and> h < 1"
proof -
  define x where "x = (B - R) / (G - R)"
  have x: "0 \<le> x" "x \<le> 1" "(G - R) * x = B - R"
    unfolding x_def using assms by (auto intro!: ratio_facts)
  have h: "h = (2 + x) / 6" by (simp add: h_def x_def)
  have 1: "hue2rgb R G (h + 1 / 3) = R" using x(1,2) by (intro hue2rgb_p) (simp_all add: h field_simps)
  have 2: "hue2rgb R G h = G" using x(1,2) by (intro hue2rgb_q) (simp_all add: h field_simps)
  have eq: "h - 1 / 3 = x / 6" using h by argo
  have 3: "hue2rgb R G (h - 1 / 3) = B"
    unfolding eq using hue2rgb_up[OF x(1,2), of R G] x(3) by simp
  have 4: "0 \<le> h \<and> h < 1" using x(1,2) h by argo
  show ?thesis using 1 2 3 4 by simp
qed

text \<open>Green is the greatest and blue is below red.\<close>
lemma hue_caseD:
  fixes R G B :: real
  assumes "B < R" "R < G"
  defines "h \<equiv> ((B - R) / (G - B) + 2) / 6"
  shows "hue2rgb B G (h + 1 / 3) = R \<and> hue2rgb B G h = G \<and> hue2rgb B G (h - 1 / 3) = B \<and> 0 \<le> h \<and> h < 1"
proof -
  define x where "x = (R - B) / (G - B)"
  have x: "0 \<le> x" "x \<le> 1" "(G - B) * x = R - B"
    unfolding x_def using assms by (auto intro!: ratio_facts)
  have x0: "0 < x" using assms by (simp add: x_def)
  have "(B - R) / (G - B) = - x" by (simp add: x_def minus_divide_left)
  then have h: "h = (2 - x) / 6" by (simp add: h_def)
  have eq: "h + 1 / 3 = (4 - x) / 6" using h by argo
  have 1: "hue2rgb B G (h + 1 / 3) = R"
    unfolding eq using hue2rgb_down[OF x(1,2), of B G] x(3) by simp
  have 2: "hue2rgb B G h = G" using x(1,2) by (intro hue2rgb_q) (simp_all add: h field_simps)
  have "hue2rgb B G (h - 1 / 3) = hue2rgb B G (h - 1 / 3 + 1)"
    using x(1,2) x0 by (intro hue2rgb_wrap_neg) (simp_all add: h field_simps)
  also have "\<dots> = B" using x(1,2) by (intro hue2rgb_p) (simp_all add: h field_simps)
  finally have 3: "hue2rgb B G (h - 1 / 3) = B" .
  have 4: "0 \<le> h \<and> h < 1" using x(1,2) h by argo
  show ?thesis using 1 2 3 4 by simp
qed

text \<open>Blue is the greatest and green is not above red.\<close>
lemma hue_caseE:
  fixes R G B :: real
  assumes "G \<le> R" "R < B"
  defines "h \<equiv> ((R - G) / (B - G) + 4) / 6"
  shows "hue2rgb G B (h + 1 / 3) = R \<and> hue2rgb G B h = G \<and> hue2rgb G B (h - 1 / 3) = B \<and> 0 \<le> h \<and> h < 1"
proof -
  define x where "x = (R - G) / (B - G)"
  have x: "0 \<le> x" "x \<le> 1" "(B - G) * x = R - G"
    unfolding x_def using assms by (auto intro!: ratio_facts)
  have h: "h = (4 + x) / 6" by (simp add: h_def x_def)
  have 1: "hue2rgb G B (h + 1 / 3) = R"
  proof (cases "x = 0")
    case True
    then have "R = G" using x(3) by simp
    moreover have "hue2rgb G B (h + 1 / 3) = G"
      by (intro hue2rgb_p) (simp_all add: h True field_simps)
    ultimately show ?thesis by simp
  next
    case False
    then have "hue2rgb G B (h + 1 / 3) = hue2rgb G B (h + 1 / 3 - 1)"
      using x(1,2) by (intro hue2rgb_wrap_pos) (simp_all add: h field_simps)
    moreover have "h + 1 / 3 - 1 = x / 6" using h by argo
    ultimately show ?thesis using hue2rgb_up[OF x(1,2), of G B] x(3) by simp
  qed
  have 2: "hue2rgb G B h = G" using x(1,2) by (intro hue2rgb_p) (simp_all add: h field_simps)
  have 3: "hue2rgb G B (h - 1 / 3) = B" using x(1,2) by (intro hue2rgb_q) (simp_all add: h field_simps)
  have 4: "0 \<le> h \<and> h < 1" using x(1,2) h by argo
  show ?thesis using 1 2 3 4 by simp
qed

text \<open>Blue is the greatest and red is below green.\<close>
lemma hue_caseF:
  fixes R G B :: real
  assumes "R < G" "G < B"
  defines "h \<equiv> ((R - G) / (B - R) + 4) / 6"
  shows "hue2rgb R B (h + 1 / 3) = R \<and> hue2rgb R B h = G \<and> hue2rgb R B (h - 1 / 3) = B \<and> 0 \<le> h \<and> h < 1"
proof -
  define x where "x = (G - R) / (B - R)"
  have x: "0 \<le> x" "x \<le> 1" "(B - R) * x = G - R"
    unfolding x_def using assms by (auto intro!: ratio_facts)
  have "(R - G) / (B - R) = - x" by (simp add: x_def minus_divide_left)
  then have h: "h = (4 - x) / 6" by (simp add: h_def)
  have 1: "hue2rgb R B (h + 1 / 3) = R" using x(1,2) by (intro hue2rgb_p) (simp_all add: h field_simps)
  have 2: "hue2rgb R B h = G"
    unfolding h using hue2rgb_down[OF x(1,2), of R B] x(3) by simp
  have 3: "hue2rgb R B (h - 1 / 3) = B" using x(1,2) by (intro hue2rgb_q) (simp_all add: h field_simps)
  have 4: "0 \<le> h \<and> h < 1" using x(1,2) h by argo
  show ?thesis using 1 2 3 4 by simp
qed

lemma hue_roundtrip:
  fixes R G B :: real
  assumes ne: "max (max R G) B \<noteq> min (min R G) B"
  defines "mx \<equiv> max (max R G) B" and "mn \<equiv> min (min R G) B"
  defines "h \<equiv> hueOf R G B"
  shows "hue2rgb mn mx (h + 1 / 3) = R \<and> hue2rgb mn mx h = G \<and> hue2rgb mn mx (h - 1 / 3) = B \<and> 0 \<le> h \<and> h < 1"
proof -
  consider (A) "B \<le> G" "G \<le> R" "B < R" | (B) "G < B" "B \<le> R"
    | (C) "R \<le> B" "B \<le> G" "R < G" | (D) "B < R" "R < G"
    | (E) "G \<le> R" "R < B" | (F) "R < G" "G < B"
  proof -
    have "R \<noteq> G \<or> G \<noteq> B" using ne by auto
    then show ?thesis using that by atomize_elim arith
  qed
  then show ?thesis
  proof cases
    case A
    then have eqs: "mx = R" "mn = B" "h = ((G - B) / (R - B) + 0) / 6"
      by (auto simp: mx_def mn_def h_def hueOf_def)
    show ?thesis unfolding eqs by (rule hue_caseA[OF A])
  next
    case B
    then have eqs: "mx = R" "mn = G" "h = ((G - B) / (R - G) + 6) / 6"
      by (auto simp: mx_def mn_def h_def hueOf_def)
    show ?thesis unfolding eqs by (rule hue_caseB[OF B])
  next
    case C
    then have eqs: "mx = G" "mn = R" "h = ((B - R) / (G - R) + 2) / 6"
      by (auto simp: mx_def mn_def h_def hueOf_def)
    show ?thesis unfolding eqs by (rule hue_caseC[OF C])
  next
    case D
    then have eqs: "mx = G" "mn = B" "h = ((B - R) / (G - B) + 2) / 6"
      by (auto simp: mx_def mn_def h_def hueOf_def)
    show ?thesis unfolding eqs by (rule hue_caseD[OF D])
  next
    case E
    then have eqs: "mx = B" "mn = G" "h = ((R - G) / (B - G) + 4) / 6"
      by (auto simp: mx_def mn_def h_def hueOf_def)
    show ?thesis unfolding eqs by (rule hue_caseE[OF E])
  next
    case F
    then have eqs: "mx = B" "mn = R" "h = ((R - G) / (B - R) + 4) / 6"
      by (auto simp: mx_def mn_def h_def hueOf_def)
    show ?thesis unfolding eqs by (rule hue_caseF[OF F])
  qed
qed

lemma sat_roundtrip:
  fixes mx mn :: real
  assumes "0 \<le> mn" "mn < mx" "mx \<le> 1"
  defines "l \<equiv> (mx + mn) / 2"
  defines "s \<equiv> (if l > 1 / 2 then (mx - mn) / (2 - mx - mn) else (mx - mn) / (mx + mn))"
  shows "0 < s" "(if l < 1 / 2 then l * (1 + s) else l + s - l * s) = mx"
proof -
  have pos: "0 < mx + mn" "0 < 2 - mx - mn" using assms by auto
  show "0 < s" using assms pos by (auto simp: s_def)
  show "(if l < 1 / 2 then l * (1 + s) else l + s - l * s) = mx"
  proof (cases "l > 1 / 2")
    case True
    then have s: "s = (mx - mn) / (2 - mx - mn)" by (simp add: s_def)
    have "l + s - l * s = l + s * (1 - l)" by (simp add: algebra_simps)
    also have "s * (1 - l) = (mx - mn) / 2"
      unfolding s l_def using pos by (simp add: field_simps)
    finally show ?thesis using True by (simp add: l_def field_simps)
  next
    case False
    then have s: "s = (mx - mn) / (mx + mn)" by (simp add: s_def)
    have ls: "l * s = (mx - mn) / 2" unfolding s l_def using pos by (simp add: field_simps)
    show ?thesis
    proof (cases "l < 1 / 2")
      case True
      have "l * (1 + s) = l + l * s" by (simp add: algebra_simps)
      then show ?thesis using True ls by (simp add: l_def field_simps)
    next
      case F2: False
      with False have l: "l = 1 / 2" by simp
      then have "mx + mn = 1" by (simp add: l_def)
      then have "s = mx - mn" by (simp add: s)
      then have "1 / 2 + s - 1 / 2 * s = mx" using \<open>mx + mn = 1\<close> by argo
      then show ?thesis unfolding l by simp
    qed
  qed
qed

lemma Math_round_of_int [simp]: "Math_round (of_int n) = n"
  unfolding Math_round_def by linarith

lemma Math_round_of_nat [simp]: "Math_round (real n) = int n"
  unfolding Math_round_def by linarith

lemma hslToRgb_rgbToHsl_real:
  fixes r0 g0 b0 :: real
  assumes "0 \<le> r0" "r0 \<le> 255" "0 \<le> g0" "g0 \<le> 255" "0 \<le> b0" "b0 \<le> 255"
  shows "(case rgbToHsl r0 g0 b0 of (h, s, l) \<Rightarrow> hslToRgb h s l)
         = (Math_round r0, Math_round g0, Math_round b0)"
proof -
  define R where "R = r0 / 255"
  define G where "G = g0 / 255"
  define B where "B = b0 / 255"
  define mx where "mx = max (max R G) B"
  define mn where "mn = min (min R G) B"
  have unscale: "R * 255 = r0" "G * 255 = g0" "B * 255 = b0" by (simp_all add: R_def G_def B_def)
  have rng: "0 \<le> mn" "mx \<le> 1" "mn \<le> mx"
    using assms by (auto simp: mx_def mn_def R_def G_def B_def)
  show ?thesis
  proof (cases "mx = mn")
    case True
    then have "R = mx" "G = mx" "B = mx" by (auto simp: mx_def mn_def max_def min_def split: if_splits)
    then show ?thesis using True unscale
      unfolding rgbToHsl_def hslToRgb_def Let_def R_def[symmetric] G_def[symmetric] B_def[symmetric]
        mx_def[symmetric] mn_def[symmetric]
      by (simp add: mult.commute)
  next
    case False
    define l where "l = (mx + mn) / 2"
    define s where "s = (if l > 1 / 2 then (mx - mn) / (2 - mx - mn) else (mx - mn) / (mx + mn))"
    define h where "h = hueOf R G B"
    have lt: "mn < mx" using False rng by simp
    have s: "0 < s" "(if l < 1 / 2 then l * (1 + s) else l + s - l * s) = mx"
      using sat_roundtrip[OF rng(1) lt rng(2)] unfolding l_def s_def by simp_all
    have p: "2 * l - mx = mn" unfolding l_def by argo
    have hue: "hue2rgb mn mx (h + 1 / 3) = R" "hue2rgb mn mx h = G" "hue2rgb mn mx (h - 1 / 3) = B"
      using hue_roundtrip[of R G B] False unfolding mx_def mn_def h_def by simp_all
    have fwd: "rgbToHsl r0 g0 b0 = (h * 360, s * 100, l * 100)"
      using False
      unfolding rgbToHsl_def Let_def R_def[symmetric] G_def[symmetric] B_def[symmetric]
        mx_def[symmetric] mn_def[symmetric] h_def hueOf_def l_def s_def
      by simp
    have bwd: "hslToRgb (h * 360) (s * 100) (l * 100)
        = (Math_round (hue2rgb mn mx (h + 1 / 3) * 255), Math_round (hue2rgb mn mx h * 255),
           Math_round (hue2rgb mn mx (h - 1 / 3) * 255))"
    proof -
      have sc: "h * 360 / 360 = h" "s * 100 / 100 = s" "l * 100 / 100 = l" by simp_all
      have sne: "(s = 0) = False" using s(1) by simp
      show ?thesis unfolding hslToRgb_def Let_def sc by (simp only: sne if_False s(2) p)
    qed
    show ?thesis unfolding fwd using bwd hue unscale by simp
  qed
qed

lemma byte_le: "unat (w :: byte) \<le> 255"
proof -
  have "unat w < 2 ^ LENGTH(8)" by (rule unsigned_less)
  then show ?thesis by simp
qed

lemma num_range: "0 \<le> num w" "num w \<le> 255"
  unfolding num_def using byte_le[of w] by linarith+

lemma Math_round_num: "Math_round (num w) = uint w"
  unfolding num_def by (simp only: Math_round_of_nat uint_nat)

lemma hslToRgb_rgbToHsl_byte:
  "(case rgbToHsl (num r) (num g) (num b) of (h, s, l) \<Rightarrow> hslToRgb h s l)
     = (uint r, uint g, uint b)"
  using hslToRgb_rgbToHsl_real[OF num_range num_range num_range, of r g b]
  by (simp only: Math_round_num)

lemma sat_range:
  fixes mx mn :: real
  assumes "0 \<le> mn" "mn < mx" "mx \<le> 1"
  shows "(if (mx + mn) / 2 > 1 / 2 then (mx - mn) / (2 - mx - mn) else (mx - mn) / (mx + mn)) \<le> 1"
  using assms by (auto simp: field_simps)

lemma rgbToHsl_range_real:
  fixes r0 g0 b0 :: real
  assumes "0 \<le> r0" "r0 \<le> 255" "0 \<le> g0" "g0 \<le> 255" "0 \<le> b0" "b0 \<le> 255"
  shows "case rgbToHsl r0 g0 b0 of (h, s, l) \<Rightarrow>
           0 \<le> h \<and> h < 360 \<and> 0 \<le> s \<and> s \<le> 100 \<and> 0 \<le> l \<and> l \<le> 100"
proof -
  define R where "R = r0 / 255"
  define G where "G = g0 / 255"
  define B where "B = b0 / 255"
  define mx where "mx = max (max R G) B"
  define mn where "mn = min (min R G) B"
  have rng: "0 \<le> mn" "mx \<le> 1" "mn \<le> mx"
    using assms by (auto simp: mx_def mn_def R_def G_def B_def)
  show ?thesis
  proof (cases "mx = mn")
    case True
    then show ?thesis using rng
      unfolding rgbToHsl_def Let_def R_def[symmetric] G_def[symmetric] B_def[symmetric]
        mx_def[symmetric] mn_def[symmetric]
      by simp
  next
    case False
    define l where "l = (mx + mn) / 2"
    define s where "s = (if l > 1 / 2 then (mx - mn) / (2 - mx - mn) else (mx - mn) / (mx + mn))"
    define h where "h = hueOf R G B"
    have lt: "mn < mx" using False rng by simp
    have s: "0 < s" using sat_roundtrip(1)[OF rng(1) lt rng(2)] unfolding l_def s_def by simp
    have s1: "s \<le> 1" using sat_range[OF rng(1) lt rng(2)] unfolding l_def s_def by simp
    have hr: "0 \<le> h" "h < 1"
      using hue_roundtrip[of R G B] False unfolding mx_def mn_def h_def by simp_all
    have lr: "0 \<le> l" "l \<le> 1" using rng unfolding l_def by simp_all
    have fwd: "rgbToHsl r0 g0 b0 = (h * 360, s * 100, l * 100)"
      using False
      unfolding rgbToHsl_def Let_def R_def[symmetric] G_def[symmetric] B_def[symmetric]
        mx_def[symmetric] mn_def[symmetric] h_def hueOf_def l_def s_def
      by simp
    show ?thesis unfolding fwd using s s1 hr lr by simp
  qed
qed

lemma rgbToHsl_range_byte:
  "case rgbToHsl (num r) (num g) (num b) of (h, s, l) \<Rightarrow>
           0 \<le> h \<and> h < 360 \<and> 0 \<le> s \<and> s \<le> 100 \<and> 0 \<le> l \<and> l \<le> 100"
  by (rule rgbToHsl_range_real[OF num_range num_range num_range])

lemma js_rem_id:
  assumes "0 \<le> h" "h < 360"
  shows "js_rem (h + 0 + 360) 360 = h"
proof -
  have "\<lfloor>(h + 360) / 360\<rfloor> = 1" using assms by (simp add: floor_eq_iff)
  moreover have "\<not> (h + 360) / 360 < 0" using assms by simp
  ultimately show ?thesis unfolding js_rem_def by simp
qed

lemma toUint8Clamped_uint: "toUint8Clamped (uint w) = (w :: byte)"
proof -
  have "uint w < 2 ^ LENGTH(8)" by (rule uint_lt2p)
  then have "max 0 (min 255 (uint w)) = uint w" by simp
  then show ?thesis unfolding toUint8Clamped_def by simp
qed

lemma adjust_identity:
  "(let (h, s, l) = rgbToHsl (num r) (num g) (num b);
        newH = js_rem (h + 0 + 360) 360;
        newS = max 0 (min 100 (s * 1));
        newL = max 0 (min 100 (l + 0));
        (newR, newG, newB) = hslToRgb newH newS newL
    in (toUint8Clamped newR, toUint8Clamped newG, toUint8Clamped newB, a)) = (r, g, b, a)"
proof -
  obtain h s l where hsl: "rgbToHsl (num r) (num g) (num b) = (h, s, l)"
    by (cases "rgbToHsl (num r) (num g) (num b)") auto
  have rng: "0 \<le> h" "h < 360" "0 \<le> s" "s \<le> 100" "0 \<le> l" "l \<le> 100"
    using rgbToHsl_range_byte[of r g b] unfolding hsl by simp_all
  have rt: "hslToRgb h s l = (uint r, uint g, uint b)"
    using hslToRgb_rgbToHsl_byte[of r g b] unfolding hsl by simp
  have "max 0 (min 100 (s * 1)) = s" "max 0 (min 100 (l + 0)) = l" using rng by simp_all
  then show ?thesis
    unfolding hsl Let_def using js_rem_id[OF rng(1,2)] rt
    by (simp add: toUint8Clamped_uint)
qed

lemma applyHslAdjustment_dominant_id:
  "applyHslAdjustment imageData (getDominantColor imageData) = imageData"
proof -
  obtain dr dg db where dom: "getDominantColor imageData = (dr, dg, db)"
    by (cases "getDominantColor imageData") auto
  obtain dh ds dl where dhsl: "rgbToHsl (of_int dr) (of_int dg) (of_int db) = (dh, ds, dl)"
    by (cases "rgbToHsl (of_int dr) (of_int dg) (of_int db)") auto
  have ratio: "(if ds > 0 then ds / ds else 1) = 1" by simp
  have "map (\<lambda>(r, g, b, a).
                   let (h, s, l) = rgbToHsl (num r) (num g) (num b);
                       newH = js_rem (h + 0 + 360) 360;
                       newS = max 0 (min 100 (s * 1));
                       newL = max 0 (min 100 (l + 0));
                       (newR, newG, newB) = hslToRgb newH newS newL
                   in (toUint8Clamped newR, toUint8Clamped newG, toUint8Clamped newB, a))
                 (data imageData) = data imageData"
  proof (rule map_idI)
    fix x assume "x \<in> set (data imageData)"
    obtain r g b a where x: "x = (r, g, b, a)" by (cases x) auto
    show "(case x of (r, g, b, a) \<Rightarrow>
                   let (h, s, l) = rgbToHsl (num r) (num g) (num b);
                       newH = js_rem (h + 0 + 360) 360;
                       newS = max 0 (min 100 (s * 1));
                       newL = max 0 (min 100 (l + 0));
                       (newR, newG, newB) = hslToRgb newH newS newL
                   in (toUint8Clamped newR, toUint8Clamped newG, toUint8Clamped newB, a)) = x"
      unfolding x prod.case by (rule adjust_identity)
  qed
  then show ?thesis
    unfolding applyHslAdjustment_def dom dhsl Let_def prod.case ratio by simp
qed

section \<open>Dominant colour\<close>

lemma fold_dominant:
  "fold (\<lambda>(r, g, b, a) (totalR, totalG, totalB, pixelCount).
           if unat a > 128
           then (totalR + unat r, totalG + unat g, totalB + unat b, pixelCount + 1)
           else (totalR, totalG, totalB, pixelCount)) ps (tr, tg, tb, n)
   = (let opaque = filter (\<lambda>(r, g, b, a). unat a > 128) ps
      in (tr + sum_list (map (\<lambda>(r, g, b, a). unat r) opaque),
          tg + sum_list (map (\<lambda>(r, g, b, a). unat g) opaque),
          tb + sum_list (map (\<lambda>(r, g, b, a). unat b) opaque),
          n + length opaque))"
  by (induction ps arbitrary: tr tg tb n) (auto simp: Let_def)

text \<open>
  What the code computes: the rounded mean over the sampled pixels whose alpha is
  strictly above 128.
\<close>

lemma getDominantColor_mean:
  "getDominantColor imageData =
     (let opaque = filter (\<lambda>(r, g, b, a). unat a > 128) (everyNth 10 (data imageData));
          n = length opaque
      in if n = 0 then (128, 128, 128)
         else (Math_round (real (sum_list (map (\<lambda>(r, g, b, a). unat r) opaque)) / real n),
               Math_round (real (sum_list (map (\<lambda>(r, g, b, a). unat g) opaque)) / real n),
               Math_round (real (sum_list (map (\<lambda>(r, g, b, a). unat b) opaque)) / real n)))"
  unfolding getDominantColor_def fold_dominant by (simp add: Let_def)

text \<open>The code agrees with the specification when no sampled pixel has alpha 128.\<close>

lemma getDominantColor_spec_agree:
  assumes "\<forall>(r, g, b, a) \<in> set (everyNth 10 (data imageData)). unat a \<noteq> 128"
  shows "getDominantColor imageData = dominantColorSpec imageData"
proof -
  have "filter (\<lambda>(r, g, b, a). unat a > 128) (everyNth 10 (data imageData))
      = filter (\<lambda>(r, g, b, a). unat a \<ge> 128) (everyNth 10 (data imageData))"
    using assms by (intro filter_cong) (auto simp: le_less)
  then show ?thesis unfolding getDominantColor_mean dominantColorSpec_def by simp
qed

text \<open>
  C4: \<open>getDominantColor\<close> returns the rounded mean of R, G, B over the sampled pixels
  whose alpha is at least 128. The code tests \<open>a > 128\<close>, so it skips a pixel whose
  alpha is exactly 128: on the image of one pixel \<open>(100, 150, 200, 128)\<close> it returns
  mid-gray, where the specified mean is \<open>(100, 150, 200)\<close>.
\<close>

theorem getDominantColor_alpha_128:
  "getDominantColor \<lparr>width = 1, height = 1, data = [(100, 150, 200, 128)]\<rparr> = (128, 128, 128)
   \<and> dominantColorSpec \<lparr>width = 1, height = 1, data = [(100, 150, 200, 128)]\<rparr>
       = (100, 150, 200)"
  by (simp add: getDominantColor_def dominantColorSpec_def Math_round_def)

section \<open>Round trips\<close>

lemma hslToRgb_100_100_1: "hslToRgb 100 100 1 = (2, 5, 0)"
  by (simp add: hslToRgb_def hue2rgb_def Math_round_def Let_def)

lemma rgbToHsl_2_5_0: "rgbToHsl 2 5 0 = (96, 100, 50 / 51)"
  by (simp add: rgbToHsl_def Let_def)

lemma hslToRgb_200_50_0: "hslToRgb 200 50 0 = (0, 0, 0)"
  by (simp add: hslToRgb_def hue2rgb_def Math_round_def Let_def)

lemma rgbToHsl_0_0_0: "rgbToHsl 0 0 0 = (0, 0, 0)"
  by (simp add: rgbToHsl_def Let_def)

text \<open>
  C5, as stated, fails in the direction from HSL to RGB and back: the 8-bit channels
  cannot hold every HSL triple. The triple \<open>(100, 100, 1)\<close> comes back as
  \<open>(96, 100, 50/51)\<close>, four degrees of hue away, and \<open>(200, 50, 0)\<close> comes back as
  \<open>(0, 0, 0)\<close>.
\<close>

theorem hsl_rgb_hsl_counterexample:
  "(case hslToRgb 100 100 1 of (r, g, b) \<Rightarrow> rgbToHsl (of_int r) (of_int g) (of_int b))
     = (96, 100, 50 / 51)
   \<and> \<not> \<bar>96 - 100\<bar> \<le> (1 :: real)
   \<and> (case hslToRgb 200 50 0 of (r, g, b) \<Rightarrow> rgbToHsl (of_int r) (of_int g) (of_int b))
     = (0, 0, 0)
   \<and> \<not> \<bar>0 - 200\<bar> \<le> (1 :: real)"
  by (simp add: hslToRgb_100_100_1 rgbToHsl_2_5_0 hslToRgb_200_50_0 rgbToHsl_0_0_0)

subsection \<open>Lightness survives the 8-bit channels\<close>

lemma hue2rgb_unit_bounds:
  fixes t :: real
  assumes "p \<le> q" "0 \<le> t" "t \<le> 1"
  shows "p \<le> hue2rgb p q t \<and> hue2rgb p q t \<le> q"
proof -
  consider (a) "t < 1 / 6" | (b) "1 / 6 \<le> t" "t < 1 / 2" | (c) "1 / 2 \<le> t" "t < 2 / 3"
    | (d) "2 / 3 \<le> t" by linarith
  then show ?thesis
  proof cases
    case a
    have "0 \<le> (q - p) * (6 * t)" using assms by (intro mult_nonneg_nonneg) simp_all
    moreover have "(q - p) * (6 * t) \<le> (q - p) * 1"
      using assms a by (intro mult_left_mono) simp_all
    moreover have "hue2rgb p q t = p + (q - p) * (6 * t)"
      using a assms unfolding hue2rgb_def Let_def by (simp add: mult.assoc)
    ultimately show ?thesis by simp
  next
    case b
    then show ?thesis using assms unfolding hue2rgb_def Let_def by simp
  next
    case c
    have "0 \<le> (q - p) * ((2 / 3 - t) * 6)" using assms c by (intro mult_nonneg_nonneg) simp_all
    moreover have "(q - p) * ((2 / 3 - t) * 6) \<le> (q - p) * 1"
      using assms c by (intro mult_left_mono) simp_all
    moreover have "hue2rgb p q t = p + (q - p) * ((2 / 3 - t) * 6)"
      using c assms unfolding hue2rgb_def Let_def by (simp add: mult.assoc)
    ultimately show ?thesis by simp
  next
    case d
    then show ?thesis using assms unfolding hue2rgb_def Let_def by simp
  qed
qed

lemma hue2rgb_bounds:
  fixes t :: real
  assumes "p \<le> q" "- 1 \<le> t" "t \<le> 2"
  shows "p \<le> hue2rgb p q t \<and> hue2rgb p q t \<le> q"
proof -
  consider (neg) "t < 0" | (mid) "0 \<le> t" "t \<le> 1" | (pos) "1 < t" by linarith
  then show ?thesis
  proof cases
    case neg
    then have "hue2rgb p q t = hue2rgb p q (t + 1)" using assms by (intro hue2rgb_wrap_neg) simp_all
    then show ?thesis using hue2rgb_unit_bounds[OF assms(1), of "t + 1"] neg assms by simp
  next
    case mid
    then show ?thesis using hue2rgb_unit_bounds[OF assms(1)] by simp
  next
    case pos
    then have "hue2rgb p q t = hue2rgb p q (t - 1)" using assms by (intro hue2rgb_wrap_pos) simp_all
    then show ?thesis using hue2rgb_unit_bounds[OF assms(1), of "t - 1"] pos assms by simp
  qed
qed

lemma hue2rgb_attains_q:
  fixes H :: real
  assumes "0 \<le> H" "H < 1"
  shows "hue2rgb p q (H + 1 / 3) = q \<or> hue2rgb p q H = q \<or> hue2rgb p q (H - 1 / 3) = q"
proof -
  consider (a) "H \<le> 1 / 6" | (b) "1 / 6 \<le> H" "H \<le> 1 / 2" | (c) "1 / 2 \<le> H" "H \<le> 5 / 6"
    | (d) "5 / 6 \<le> H" by linarith
  then show ?thesis
  proof cases
    case a
    then have "hue2rgb p q (H + 1 / 3) = q" using assms by (intro hue2rgb_q) simp_all
    then show ?thesis by simp
  next
    case b
    then have "hue2rgb p q H = q" by (intro hue2rgb_q) simp_all
    then show ?thesis by simp
  next
    case c
    then have "hue2rgb p q (H - 1 / 3) = q" by (intro hue2rgb_q) simp_all
    then show ?thesis by simp
  next
    case d
    have "hue2rgb p q (H + 1 / 3) = hue2rgb p q (H + 1 / 3 - 1)"
      using d assms by (intro hue2rgb_wrap_pos) simp_all
    also have "\<dots> = q" using d assms by (intro hue2rgb_q) simp_all
    finally show ?thesis by simp
  qed
qed

lemma hue2rgb_at_0: "hue2rgb p q 0 = p"
  unfolding hue2rgb_def Let_def by simp

lemma hue2rgb_attains_p:
  fixes H :: real
  assumes "0 \<le> H" "H < 1"
  shows "hue2rgb p q (H + 1 / 3) = p \<or> hue2rgb p q H = p \<or> hue2rgb p q (H - 1 / 3) = p"
proof -
  consider (a) "H < 1 / 3" | (a') "H = 1 / 3" | (b) "1 / 3 < H" "H \<le> 2 / 3" | (c) "2 / 3 \<le> H"
    by linarith
  then show ?thesis
  proof cases
    case a
    have "hue2rgb p q (H - 1 / 3) = hue2rgb p q (H - 1 / 3 + 1)"
      using a assms by (intro hue2rgb_wrap_neg) simp_all
    also have "\<dots> = p" using a assms by (intro hue2rgb_p) simp_all
    finally show ?thesis by simp
  next
    case a'
    have "hue2rgb p q (H - 1 / 3) = p" unfolding a' using hue2rgb_at_0[of p q] by simp
    then show ?thesis by simp
  next
    case b
    then have "hue2rgb p q (H + 1 / 3) = p" by (intro hue2rgb_p) simp_all
    then show ?thesis by simp
  next
    case c
    then have "hue2rgb p q H = p" using assms by (intro hue2rgb_p) simp_all
    then show ?thesis by simp
  qed
qed

lemma Math_round_mono: "x \<le> y \<Longrightarrow> Math_round x \<le> Math_round y"
  unfolding Math_round_def by (intro floor_mono) simp

lemma Math_round_near: "\<bar>real_of_int (Math_round x) - x\<bar> \<le> 1 / 2"
  unfolding Math_round_def by linarith

lemma max3_eq:
  fixes a b c m :: "'a :: linorder"
  assumes "a \<le> m" "b \<le> m" "c \<le> m" "a = m \<or> b = m \<or> c = m"
  shows "max (max a b) c = m"
  using assms by (auto simp: max_def)

lemma min3_eq:
  fixes a b c m :: "'a :: linorder"
  assumes "m \<le> a" "m \<le> b" "m \<le> c" "a = m \<or> b = m \<or> c = m"
  shows "min (min a b) c = m"
  using assms by (auto simp: min_def)

lemma rgbToHsl_lightness:
  "(case rgbToHsl r g b of (h, s, l) \<Rightarrow> l)
     = (max (max (r / 255) (g / 255)) (b / 255) + min (min (r / 255) (g / 255)) (b / 255)) / 2 * 100"
  unfolding rgbToHsl_def Let_def by simp

lemma hslToRgb_chromatic:
  assumes "s \<noteq> 0"
  shows "hslToRgb h s l =
     (let q = (if l / 100 < 1 / 2 then l / 100 * (1 + s / 100)
               else l / 100 + s / 100 - l / 100 * (s / 100));
          p = 2 * (l / 100) - q
      in (Math_round (hue2rgb p q (h / 360 + 1 / 3) * 255),
          Math_round (hue2rgb p q (h / 360) * 255),
          Math_round (hue2rgb p q (h / 360 - 1 / 3) * 255)))"
  using assms unfolding hslToRgb_def Let_def by simp

lemma lightness_arith:
  fixes a b p q l :: real
  assumes "\<bar>a - q * 255\<bar> \<le> 1 / 2" "\<bar>b - p * 255\<bar> \<le> 1 / 2" "l = (p + q) / 2 * 100"
  shows "\<bar>(a / 255 + b / 255) / 2 * 100 - l\<bar> \<le> 1"
  using assms by argo

lemma lightness_roundtrip:
  fixes h s l :: real
  assumes "0 \<le> h" "h < 360" "0 < s" "s \<le> 100" "0 \<le> l" "l \<le> 100"
  shows "case hslToRgb h s l of (r, g, b) \<Rightarrow>
           case rgbToHsl (of_int r) (of_int g) (of_int b) of (h', s', l') \<Rightarrow> \<bar>l' - l\<bar> \<le> 1"
proof -
  define L where "L = l / 100"
  define S where "S = s / 100"
  define H where "H = h / 360"
  define q where "q = (if L < 1 / 2 then L * (1 + S) else L + S - L * S)"
  define p where "p = 2 * L - q"
  have rng: "0 \<le> L" "L \<le> 1" "0 < S" "S \<le> 1" "0 \<le> H" "H < 1"
    using assms by (simp_all add: L_def S_def H_def)
  have "L \<le> q"
  proof (cases "L < 1 / 2")
    case True
    have "0 \<le> L * S" using rng by (intro mult_nonneg_nonneg) simp_all
    then show ?thesis using True by (simp add: q_def algebra_simps)
  next
    case False
    have "0 \<le> S * (1 - L)" using rng by (intro mult_nonneg_nonneg) simp_all
    then show ?thesis using False by (simp add: q_def algebra_simps)
  qed
  then have pq: "p \<le> q" and mid: "p + q = 2 * L" by (simp_all add: p_def)
  define vr where "vr = hue2rgb p q (H + 1 / 3)"
  define vg where "vg = hue2rgb p q H"
  define vb where "vb = hue2rgb p q (H - 1 / 3)"
  have b: "p \<le> vr" "vr \<le> q" "p \<le> vg" "vg \<le> q" "p \<le> vb" "vb \<le> q"
    using hue2rgb_bounds[OF pq, of "H + 1 / 3"] hue2rgb_bounds[OF pq, of H]
      hue2rgb_bounds[OF pq, of "H - 1 / 3"] rng
    by (simp_all add: vr_def vg_def vb_def)
  have aq: "vr = q \<or> vg = q \<or> vb = q"
    using hue2rgb_attains_q[OF rng(5,6)] by (simp add: vr_def vg_def vb_def)
  have ap: "vr = p \<or> vg = p \<or> vb = p"
    using hue2rgb_attains_p[OF rng(5,6)] by (simp add: vr_def vg_def vb_def)
  define r where "r = Math_round (vr * 255)"
  define g where "g = Math_round (vg * 255)"
  define bl where "bl = Math_round (vb * 255)"
  have rgb: "hslToRgb h s l = (r, g, bl)"
    using assms(3)
    by (simp add: hslToRgb_chromatic Let_def L_def S_def H_def q_def p_def vr_def vg_def vb_def
        r_def g_def bl_def)
  have mx: "max (max r g) bl = Math_round (q * 255)"
  proof (rule max3_eq)
    show "r \<le> Math_round (q * 255)" unfolding r_def using b by (intro Math_round_mono) simp
    show "g \<le> Math_round (q * 255)" unfolding g_def using b by (intro Math_round_mono) simp
    show "bl \<le> Math_round (q * 255)" unfolding bl_def using b by (intro Math_round_mono) simp
    show "r = Math_round (q * 255) \<or> g = Math_round (q * 255) \<or> bl = Math_round (q * 255)"
      using aq unfolding r_def g_def bl_def by auto
  qed
  have mn: "min (min r g) bl = Math_round (p * 255)"
  proof (rule min3_eq)
    show "Math_round (p * 255) \<le> r" unfolding r_def using b by (intro Math_round_mono) simp
    show "Math_round (p * 255) \<le> g" unfolding g_def using b by (intro Math_round_mono) simp
    show "Math_round (p * 255) \<le> bl" unfolding bl_def using b by (intro Math_round_mono) simp
    show "r = Math_round (p * 255) \<or> g = Math_round (p * 255) \<or> bl = Math_round (p * 255)"
      using ap unfolding r_def g_def bl_def by auto
  qed
  have mxr: "max (max (real_of_int r / 255) (real_of_int g / 255)) (real_of_int bl / 255)
      = real_of_int (max (max r g) bl) / 255"
    by (simp add: max_def divide_right_mono)
  have mnr: "min (min (real_of_int r / 255) (real_of_int g / 255)) (real_of_int bl / 255)
      = real_of_int (min (min r g) bl) / 255"
    by (simp add: min_def divide_right_mono)
  have l': "(case rgbToHsl (of_int r) (of_int g) (of_int bl) of (h', s', l') \<Rightarrow> l')
      = (real_of_int (Math_round (q * 255)) / 255 + real_of_int (Math_round (p * 255)) / 255) / 2 * 100"
    unfolding rgbToHsl_lightness mxr mnr mx mn ..
  have eq: "\<bar>real_of_int (Math_round (q * 255)) - q * 255\<bar> \<le> 1 / 2"
    and ep: "\<bar>real_of_int (Math_round (p * 255)) - p * 255\<bar> \<le> 1 / 2"
    by (rule Math_round_near)+
  have "l = (p + q) / 2 * 100" using mid by (simp add: L_def)
  then have "\<bar>(real_of_int (Math_round (q * 255)) / 255 + real_of_int (Math_round (p * 255)) / 255) / 2 * 100 - l\<bar> \<le> 1"
    using eq ep by (intro lightness_arith)
  then have "\<bar>(case rgbToHsl (of_int r) (of_int g) (of_int bl) of (h', s', l') \<Rightarrow> l') - l\<bar> \<le> 1"
    unfolding l' .
  then show ?thesis unfolding rgb by (simp split: prod.splits)
qed

text \<open>
  C5, amended: for all \<open>r\<close>, \<open>g\<close>, \<open>b\<close> in 0..255, \<open>hslToRgb (rgbToHsl r g b)\<close> is
  \<open>(r, g, b)\<close> again, exactly and so within 1 per channel. In the other direction,
  \<open>rgbToHsl (hslToRgb h s l)\<close> gives \<open>(h, s, l)\<close> again for every triple that is itself
  the \<open>rgbToHsl\<close> of such \<open>r\<close>, \<open>g\<close>, \<open>b\<close>; and for every \<open>h\<close> in [0, 360), \<open>s\<close> in
  (0, 100] and \<open>l\<close> in [0, 100] it gives the lightness \<open>l\<close> again within 1. Hue and
  saturation are not reproduced in general.
\<close>

theorem rgb_hsl_roundtrip:
  fixes r g b :: nat and h s l :: real
  assumes "r \<le> 255" "g \<le> 255" "b \<le> 255"
      and "0 \<le> h" "h < 360" "0 < s" "s \<le> 100" "0 \<le> l" "l \<le> 100"
  shows "(case rgbToHsl (real r) (real g) (real b) of (h0, s0, l0) \<Rightarrow> hslToRgb h0 s0 l0)
           = (int r, int g, int b)
         \<and> (case rgbToHsl (real r) (real g) (real b) of (h0, s0, l0) \<Rightarrow>
               case hslToRgb h0 s0 l0 of (r', g', b') \<Rightarrow>
                 rgbToHsl (of_int r') (of_int g') (of_int b') = (h0, s0, l0))
         \<and> (case hslToRgb h s l of (r', g', b') \<Rightarrow>
               case rgbToHsl (of_int r') (of_int g') (of_int b') of (h', s', l') \<Rightarrow>
                 \<bar>l' - l\<bar> \<le> 1)"
proof -
  have rt: "(case rgbToHsl (real r) (real g) (real b) of (h0, s0, l0) \<Rightarrow> hslToRgb h0 s0 l0)
           = (int r, int g, int b)"
    using hslToRgb_rgbToHsl_real[of "real r" "real g" "real b"] assms(1-3) by simp
  obtain h0 s0 l0 where hsl: "rgbToHsl (real r) (real g) (real b) = (h0, s0, l0)"
    by (cases "rgbToHsl (real r) (real g) (real b)") auto
  from rt have "hslToRgb h0 s0 l0 = (int r, int g, int b)" unfolding hsl by simp
  then have again: "(case rgbToHsl (real r) (real g) (real b) of (h0, s0, l0) \<Rightarrow>
               case hslToRgb h0 s0 l0 of (r', g', b') \<Rightarrow>
                 rgbToHsl (of_int r') (of_int g') (of_int b') = (h0, s0, l0))"
    unfolding hsl by (simp add: hsl)
  show ?thesis using rt again lightness_roundtrip[OF assms(4-9)] by simp
qed

theorem rgb_hsl_roundtrip_witness:
  "(case rgbToHsl 2 5 0 of (h0, s0, l0) \<Rightarrow> hslToRgb h0 s0 l0) = (2, 5, 0)
   \<and> (case rgbToHsl 2 5 0 of (h0, s0, l0) \<Rightarrow>
         case hslToRgb h0 s0 l0 of (r', g', b') \<Rightarrow>
           rgbToHsl (of_int r') (of_int g') (of_int b') = (h0, s0, l0))
   \<and> (case hslToRgb 100 100 1 of (r', g', b') \<Rightarrow>
         case rgbToHsl (of_int r') (of_int g') (of_int b') of (h', s', l') \<Rightarrow>
           \<bar>l' - 1\<bar> \<le> 1)"
  using rgb_hsl_roundtrip[of 2 5 0 100 100 1] by simp

section \<open>Global adjustment\<close>

text \<open>
  C6: \<open>applyHslAdjustment\<close> with the buffer's own dominant colour as target changes no
  channel of any pixel by more than 1, and leaves every alpha as it is. (The shifts are
  0 and the ratio is 1, so the output is the input.)
\<close>

theorem applyHslAdjustment_dominant_noop:
  "list_all2 (\<lambda>(r', g', b', a') (r, g, b, a).
                \<bar>uint r' - uint r\<bar> \<le> 1 \<and> \<bar>uint g' - uint g\<bar> \<le> 1 \<and> \<bar>uint b' - uint b\<bar> \<le> 1
                \<and> a' = a)
     (data (applyHslAdjustment imageData (getDominantColor imageData))) (data imageData)"
  unfolding applyHslAdjustment_dominant_id
  by (rule list_all2_refl) auto

section \<open>Alpha preservation\<close>

text \<open>
  The masks of \<open>applyMultiRegionAdjustment\<close> are generated only when some region is
  active, so \<open>allRegions\<close> is not empty there and \<open>reduce\<close> does not throw.
\<close>

lemma forEach_Inr:
  assumes "\<And>x. x \<in> set xs \<Longrightarrow> f x = Inr (g x)"
  shows "forEach f xs = Inr (map g xs)"
  using assms by (induction xs) auto

lemma regionMaskAt_total:
  assumes "allRegions \<noteq> [] \<or> \<not> hardMask"
  shows "\<exists>w. regionMaskAt px region allRegions sharpness hardMask = Inr w"
proof -
  obtain r g b a where px: "px = (r, g, b, a)" by (cases px) auto
  show ?thesis using assms unfolding px regionMaskAt_def
    by (auto simp: Let_def split: list.splits option.splits prod.splits)
qed

lemma generateRegionMask_total:
  assumes "allRegions \<noteq> [] \<or> \<not> hardMask"
  shows "generateRegionMask imageData region allRegions sharpness hardMask
     = Inr (map (\<lambda>px. projr (regionMaskAt px region allRegions sharpness hardMask)) (data imageData))"
  unfolding generateRegionMask_def
proof (rule forEach_Inr)
  fix x
  from regionMaskAt_total[OF assms, of x region sharpness]
  show "regionMaskAt x region allRegions sharpness hardMask =
         Inr (projr (regionMaskAt x region allRegions sharpness hardMask))" by auto
qed

lemma generateMasks_total:
  assumes "regions \<noteq> [] \<or> \<not> hardMask"
  shows "\<exists>masks'. generateMasks imageData active regions sharpness hardMask masks = Inr masks'"
proof (induction active arbitrary: masks)
  case Nil
  then show ?case by simp
next
  case (Cons region rest)
  show ?case using Cons.IH
    by (simp add: generateRegionMask_total[OF assms])
qed

lemma adjustPixel_alpha: "alphaOf (adjustPixel masks shifts' active i px) = alphaOf px"
proof -
  obtain r g b a where px: "px = (r, g, b, a)" by (cases px) auto
  show ?thesis unfolding px adjustPixel_def alphaOf_def
    by (simp add: Let_def split: prod.splits)
qed

lemma map_alpha_zip:
  assumes "\<And>i px. alphaOf (f i px) = alphaOf px"
  shows "map alphaOf (map (\<lambda>(i, px). f i px) (zip [0 ..< length xs] xs)) = map alphaOf xs"
proof -
  have "map alphaOf (map (\<lambda>(i, px). f i px) (zip [0 ..< length xs] xs))
      = map (alphaOf \<circ> snd) (zip [0 ..< length xs] xs)"
    using assms by (auto simp: comp_def)
  also have "\<dots> = map alphaOf (map snd (zip [0 ..< length xs] xs))" by (simp only: map_map)
  also have "map snd (zip [0 ..< length xs] xs) = xs" by (simp add: map_snd_zip)
  finally show ?thesis .
qed

lemma applyMultiRegionAdjustment_alpha:
  "\<exists>out. applyMultiRegionAdjustment imageData regions sharpness hardMask = Inr out
         \<and> alphaChannel out = alphaChannel imageData"
proof -
  define active where "active = filter (\<lambda>r. ColorRegion.targetColor r \<noteq> None) regions"
  have eq: "applyMultiRegionAdjustment imageData regions sharpness hardMask =
     (if length active = 0
         then Inr \<lparr>width = width imageData, height = height imageData, data = data imageData\<rparr>
         else
           (case generateMasks imageData active regions sharpness hardMask Map.empty of
              Inl e \<Rightarrow> Inl e
            | Inr masks \<Rightarrow>
                Inr \<lparr>width = width imageData, height = height imageData,
                        data = map (\<lambda>(i, px). adjustPixel masks (regionShifts active) active i px)
                                 (zip [0 ..< length (data imageData)] (data imageData))\<rparr>))"
    unfolding applyMultiRegionAdjustment_def Let_def active_def ..
  show ?thesis
  proof (cases "active = []")
    case True
    then show ?thesis unfolding eq alphaChannel_def by simp
  next
    case False
    then have "regions \<noteq> []" unfolding active_def by auto
    then obtain masks where m: "generateMasks imageData active regions sharpness hardMask Map.empty = Inr masks"
      using generateMasks_total[of regions hardMask imageData active sharpness Map.empty] by blast
    have "alphaChannel \<lparr>width = width imageData, height = height imageData,
                        data = map (\<lambda>(i, px). adjustPixel masks (regionShifts active) active i px)
                                 (zip [0 ..< length (data imageData)] (data imageData))\<rparr>
          = alphaChannel imageData"
      unfolding alphaChannel_def ImageData.simps
      by (rule map_alpha_zip) (rule adjustPixel_alpha)
    then show ?thesis unfolding eq m using False by simp
  qed
qed

lemma applyHslAdjustment_alpha:
  "alphaChannel (applyHslAdjustment imageData targetRgb) = alphaChannel imageData"
  unfolding applyHslAdjustment_def alphaChannel_def alphaOf_def
  by (auto simp: Let_def split: prod.splits)

lemma replacePixel_alpha: "alphaOf (replacePixel bm bs px) = alphaOf px"
proof -
  obtain r g b a where px: "px = (r, g, b, a)" by (cases px) auto
  show ?thesis unfolding px replacePixel_def alphaOf_def
    by (simp add: Let_def split: prod.splits option.splits)
qed

lemma replace_step_alpha:
  "alphaOf (case px of (r, g, b, a) \<Rightarrow>
                        if unat a < 128 then (r, g, b, a)
                        else (case bestMatchOf (rgbToHsl (num r) (num g) (num b)) rds of
                                (Some bestMatch, bestDistance, Finite bestStrength) \<Rightarrow>
                                  if bestStrength > 0
                                  then replacePixel bestMatch bestStrength (r, g, b, a)
                                  else (r, g, b, a)
                              | _ \<Rightarrow> (r, g, b, a)))
        = alphaOf px"
proof -
  obtain r g b a where px: "px = (r, g, b, a)" by (cases px) auto
  show ?thesis unfolding px
    by (simp add: replacePixel_alpha split: prod.splits option.splits number.splits)
qed

lemma applyReplacements_alpha:
  "alphaChannel (applyReplacements imageData replacements) = alphaChannel imageData"
  unfolding applyReplacements_def alphaChannel_def Let_def
  by (simp add: comp_def replace_step_alpha)

text \<open>
  C9: in every recolouring mode the alpha channel of the output is the alpha channel of
  the input: for the global \<open>applyHslAdjustment\<close> with any target, for
  \<open>applyReplacements\<close> with any replacements, and for \<open>applyMultiRegionAdjustment\<close>
  with any regions, sharpness and mask mode, which always returns a buffer.
\<close>

theorem alpha_preservation:
  "alphaChannel (applyHslAdjustment imageData targetRgb) = alphaChannel imageData
   \<and> alphaChannel (applyReplacements imageData replacements) = alphaChannel imageData
   \<and> (\<exists>out. applyMultiRegionAdjustment imageData regions sharpness hardMask = Inr out
            \<and> alphaChannel out = alphaChannel imageData)"
  using applyHslAdjustment_alpha applyReplacements_alpha applyMultiRegionAdjustment_alpha
  by blast

section \<open>Pass-through without targets\<close>

text \<open>
  C7: when no region has a target colour and no replacement is enabled with a target
  colour, \<open>applyMultiRegionAdjustment\<close> and \<open>applyReplacements\<close> return a buffer
  identical to the input.
\<close>

theorem no_target_passthrough:
  assumes "\<forall>r \<in> set regions. ColorRegion.targetColor r = None"
      and "\<forall>r \<in> set replacements. \<not> (enabled r \<and> ColorReplacement.targetColor r \<noteq> [])"
  shows "applyMultiRegionAdjustment imageData regions sharpness hardMask = Inr imageData
         \<and> applyReplacements imageData replacements = imageData"
proof -
  have "filter (\<lambda>r. ColorRegion.targetColor r \<noteq> None) regions = []"
    using assms(1) by (simp add: filter_empty_conv)
  moreover have "filter (\<lambda>r. enabled r \<and> ColorReplacement.targetColor r \<noteq> []) replacements = []"
    using assms(2) by (simp add: filter_empty_conv)
  ultimately show ?thesis
    unfolding applyMultiRegionAdjustment_def applyReplacements_def by (simp add: Let_def)
qed

theorem no_target_passthrough_witness:
  "applyMultiRegionAdjustment \<lparr>width = 1, height = 1, data = [(10, 20, 30, 255)]\<rparr>
        [\<lparr>ColorRegion.id' = ''region-0'', name = ''Gray'', centroidHsl = (0, 0, 0),
          targetColor = None, pixelCount = 1\<rparr>] (4 / 5) False
       = Inr \<lparr>width = 1, height = 1, data = [(10, 20, 30, 255)]\<rparr>
   \<and> applyReplacements \<lparr>width = 1, height = 1, data = [(10, 20, 30, 255)]\<rparr>
        [\<lparr>ColorReplacement.id' = ''replacement-0'', sourceColor = ''#ff0000'',
          targetColor = ''#00ff00'', tolerance = 30, enabled = False\<rparr>]
       = \<lparr>width = 1, height = 1, data = [(10, 20, 30, 255)]\<rparr>"
proof -
  have h1: "\<forall>r \<in> set [\<lparr>ColorRegion.id' = ''region-0'', name = ''Gray'', centroidHsl = (0, 0, 0),
                   targetColor = None, pixelCount = 1\<rparr>]. ColorRegion.targetColor r = None"
    by simp
  have h2: "\<forall>r \<in> set [\<lparr>ColorReplacement.id' = ''replacement-0'', sourceColor = ''#ff0000'',
                     targetColor = ''#00ff00'', tolerance = 30, enabled = False\<rparr>].
          \<not> (enabled r \<and> ColorReplacement.targetColor r \<noteq> [])"
    by simp
  show ?thesis by (rule no_target_passthrough[OF h1 h2])
qed

section \<open>Selection mask\<close>

lemma hex_red: "hexToRgb ''#ff0000'' = (255, 0, 0)"
  by (simp add: hexToRgb_def hexDigit_def)

lemma hsl_red: "rgbToHsl 255 0 0 = (0, 100, 50)"
  by (simp add: rgbToHsl_def Let_def)

text \<open>
  C3: with a tolerance in 0..100 no value of the selection mask is negative or NaN, and
  a pixel at the maximal distance gets 0. The code fails this at tolerance 0: a pixel
  of exactly the source colour has distance 0 = \<open>maxDistance\<close>, its strength is
  \<open>1 - 0 / 0\<close>, and the mask holds NaN.
\<close>

theorem generateSelectionMask_tolerance_0:
  "generateSelectionMask \<lparr>width = 1, height = 1, data = [(255, 0, 0, 255)]\<rparr> ''#ff0000'' 0 = [NaN]"
  by (simp add: generateSelectionMask_def hex_red hsl_red selectionAt_def num_def
      colorDistance_def strengthOf_def)

lemma colorDistance_nonneg: "0 \<le> colorDistance h1 s1 l1 h2 s2 l2"
  unfolding colorDistance_def Let_def by simp

text \<open>With a positive maximal distance every value is a number between 0 and 1.\<close>

lemma selectionAt_range:
  assumes "0 < maxDistance'"
  shows "\<exists>v. selectionAt src maxDistance' px = Finite v \<and> 0 \<le> v \<and> v \<le> 1"
proof -
  obtain r g b a where px: "px = (r, g, b, a)" by (cases px) auto
  obtain sh ss sl where src: "src = (sh, ss, sl)" by (cases src) auto
  obtain h s l where hsl: "rgbToHsl (num r) (num g) (num b) = (h, s, l)"
    by (cases "rgbToHsl (num r) (num g) (num b)") auto
  have d0: "0 \<le> colorDistance h s l sh ss sl" by (rule colorDistance_nonneg)
  show ?thesis
  proof (cases "unat a < 128 \<or> \<not> colorDistance h s l sh ss sl \<le> maxDistance'")
    case True
    then show ?thesis unfolding px src selectionAt_def by (auto simp: hsl Let_def)
  next
    case False
    then have le: "colorDistance h s l sh ss sl \<le> maxDistance'" by simp
    define st where "st = 1 - colorDistance h s l sh ss sl / maxDistance'"
    have st: "0 \<le> st" "st \<le> 1" using le d0 assms unfolding st_def by (simp_all add: field_simps)
    have val: "selectionAt src maxDistance' px = Finite (st powr (1 / 2))"
      using False assms unfolding px src selectionAt_def strengthOf_def st_def
      by (simp add: hsl Let_def)
    have "0 \<le> st powr (1 / 2)" by simp
    moreover have "st powr (1 / 2) \<le> 1" using st by (simp add: powr_le1)
    ultimately show ?thesis using val by simp
  qed
qed

text \<open>With a positive maximal distance a pixel at exactly that distance gets 0.\<close>

lemma selectionAt_boundary:
  assumes "0 < maxDistance'" "\<not> unat a < 128"
    and "(case rgbToHsl (num r) (num g) (num b) of (h, s, l) \<Rightarrow>
            colorDistance h s l sourceH sourceS sourceL) = maxDistance'"
  shows "selectionAt (sourceH, sourceS, sourceL) maxDistance' (r, g, b, a) = Finite 0"
proof -
  obtain h s l where hsl: "rgbToHsl (num r) (num g) (num b) = (h, s, l)"
    by (cases "rgbToHsl (num r) (num g) (num b)") auto
  have d: "colorDistance h s l sourceH sourceS sourceL = maxDistance'"
    using assms(3) unfolding hsl by simp
  show ?thesis using assms(1,2) d
    unfolding selectionAt_def strengthOf_def by (simp add: hsl Let_def)
qed

text \<open>So for a positive tolerance the whole mask holds numbers between 0 and 1.\<close>

lemma generateSelectionMask_positive_tolerance:
  assumes "0 < tolerance'" "v \<in> set (generateSelectionMask imageData sourceColorHex tolerance')"
  shows "\<exists>x. v = Finite x \<and> 0 \<le> x \<and> x \<le> 1"
proof -
  have pos: "0 < tolerance' * (3 / 2)" using assms(1) by simp
  obtain sr sg sb where hex: "hexToRgb sourceColorHex = (sr, sg, sb)"
    by (cases "hexToRgb sourceColorHex") auto
  have "generateSelectionMask imageData sourceColorHex tolerance'
      = map (selectionAt (rgbToHsl (of_int sr) (of_int sg) (of_int sb)) (tolerance' * (3 / 2)))
          (data imageData)"
    unfolding generateSelectionMask_def hex Let_def prod.case ..
  then obtain px where
    "v = selectionAt (rgbToHsl (of_int sr) (of_int sg) (of_int sb)) (tolerance' * (3 / 2)) px"
    using assms(2) by auto
  then show ?thesis using selectionAt_range[OF pos] by simp
qed

section \<open>Region masks\<close>

lemma maskWeights_at:
  assumes "regions \<noteq> [] \<or> \<not> hardMask" "i < length (data imageData)"
  shows "maskWeights imageData regions sharpness hardMask i
       = map (\<lambda>region. regionMaskAt (data imageData ! i) region regions sharpness hardMask) regions"
proof -
  have "\<And>region. (case generateRegionMask imageData region regions sharpness hardMask of
                      Inl e \<Rightarrow> Inl e
                    | Inr mask' \<Rightarrow> Inr (mask' ! i))
       = regionMaskAt (data imageData ! i) region regions sharpness hardMask"
    using regionMaskAt_total[OF assms(1)] assms(2)
    by (simp add: generateRegionMask_total[OF assms(1)]) (metis sum.sel(2))
  then show ?thesis unfolding maskWeights_def by simp
qed

lemma minDistOf_fold_Some:
  "\<exists>m'. fold (\<lambda>(regionId, dist) minDist.
             case minDist of None \<Rightarrow> Some dist
             | Some m \<Rightarrow> if dist < m then Some dist else Some m) ds (Some m) = Some m'"
  by (induction ds arbitrary: m) (auto split: prod.splits)

lemma minDistOf_Some: "ds \<noteq> [] \<Longrightarrow> \<exists>m. minDistOf ds = Some m"
  unfolding minDistOf_def using minDistOf_fold_Some
  by (cases ds) (auto split: prod.splits)

lemma weight_fold_total:
  "fst (fold (\<lambda>(regionId, dist) (totalWeight, regionWeight).
                (totalWeight + W dist, if regionId = x then W dist else regionWeight))
             ds (t, r))
   = t + sum_list (map (\<lambda>(regionId, dist). W dist) ds)"
  by (induction ds arbitrary: t r) (auto simp: add.assoc split: prod.splits)

lemma weight_fold_absent:
  "x \<notin> fst ` set ds \<Longrightarrow>
   snd (fold (\<lambda>(regionId, dist) (totalWeight, regionWeight).
                (totalWeight + W dist, if regionId = x then W dist else regionWeight))
             ds (t, r)) = r"
  by (induction ds arbitrary: t r) (auto split: prod.splits)

lemma weight_fold_present:
  "distinct (map fst ds) \<Longrightarrow> (x, d) \<in> set ds \<Longrightarrow>
   snd (fold (\<lambda>(regionId, dist) (totalWeight, regionWeight).
                (totalWeight + W dist, if regionId = x then W dist else regionWeight))
             ds (t, r)) = W d"
proof (induction ds arbitrary: t r)
  case Nil
  then show ?case by simp
next
  case (Cons p ps)
  obtain y e where p: "p = (y, e)" by (cases p) auto
  show ?case
  proof (cases "(x, d) = p")
    case True
    then have "x \<notin> fst ` set ps" using Cons.prems(1) p by auto
    then show ?thesis using True p by (simp add: weight_fold_absent)
  next
    case False
    then have in_ps: "(x, d) \<in> set ps" using Cons.prems(2) by simp
    have "distinct (map fst ps)" using Cons.prems(1) by simp
    from Cons.IH[OF this in_ps] show ?thesis by (simp add: p)
  qed
qed

lemma soft_step:
  "(\<lambda>(regionId, dist) (totalWeight, regionWeight).
        (totalWeight + exp (- (dist - minDist) * (dist - minDist) / falloffDivisor),
         if regionId = x then exp (- (dist - minDist) * (dist - minDist) / falloffDivisor)
         else regionWeight))
   = (\<lambda>(regionId, dist) (totalWeight, regionWeight).
        (totalWeight + falloffWeight minDist falloffDivisor dist,
         if regionId = x then falloffWeight minDist falloffDivisor dist else regionWeight))"
  unfolding falloffWeight_def Let_def ..

lemma falloffWeight_pos: "0 < falloffWeight m fd d"
  unfolding falloffWeight_def Let_def by simp

lemma sum_list_pos:
  assumes "xs \<noteq> []" "\<And>x. x \<in> set xs \<Longrightarrow> 0 < (f x :: real)"
  shows "0 < sum_list (map f xs)"
proof -
  obtain y ys where xs: "xs = y # ys" using assms(1) by (cases xs) auto
  have "0 \<le> sum_list (map f ys)"
    by (rule sum_list_nonneg) (use assms(2) xs in \<open>auto simp: less_imp_le\<close>)
  moreover have "0 < f y" using assms(2) xs by simp
  ultimately show ?thesis unfolding xs by simp
qed

lemma sum_list_divide:
  "sum_list (map (\<lambda>x. f x / (c :: real)) xs) = sum_list (map f xs) / c"
  by (induction xs) (auto simp: add_divide_distrib)

text \<open>
  The soft weight of an opaque pixel: the falloff weight of the region over the sum of
  the falloff weights of all regions.
\<close>

lemma regionMaskAt_soft:
  assumes opaque: "\<not> unat a < 128"
      and ne: "regions \<noteq> []"
      and dist: "distinct (map ColorRegion.id' regions)"
  shows "\<exists>m. \<forall>region \<in> set regions. regionMaskAt (r, g, b, a) region regions sharpness False
     = Inr (falloffWeight m (50 + (1 - sharpness) * 1950)
              (hslDistance (rgbToHsl (num r) (num g) (num b)) (centroidHsl region))
            / sum_list (map (\<lambda>other. falloffWeight m (50 + (1 - sharpness) * 1950)
                 (hslDistance (rgbToHsl (num r) (num g) (num b)) (centroidHsl other))) regions))"
proof -
  define ph where "ph = rgbToHsl (num r) (num g) (num b)"
  define ds where "ds = map (\<lambda>otherRegion.
                               (ColorRegion.id' otherRegion, hslDistance ph (centroidHsl otherRegion)))
                             regions"
  define fd where "fd = 50 + (1 - sharpness) * 1950"
  have "ds \<noteq> []" using ne by (simp add: ds_def)
  then obtain m where m: "minDistOf ds = Some m" using minDistOf_Some by blast
  define W where "W = falloffWeight m fd"
  have "regionMaskAt (r, g, b, a) region regions sharpness False
     = Inr (falloffWeight m (50 + (1 - sharpness) * 1950)
              (hslDistance (rgbToHsl (num r) (num g) (num b)) (centroidHsl region))
            / sum_list (map (\<lambda>other. falloffWeight m (50 + (1 - sharpness) * 1950)
                 (hslDistance (rgbToHsl (num r) (num g) (num b)) (centroidHsl other))) regions))"
    if mem: "region \<in> set regions" for region
  proof -
  define res where "res = fold (\<lambda>(regionId, dist) (totalWeight, regionWeight).
                (totalWeight + W dist, if regionId = ColorRegion.id' region then W dist else regionWeight))
             ds (0, 0)"
  have tot: "fst res = sum_list (map (\<lambda>other. W (hslDistance ph (centroidHsl other))) regions)"
    unfolding res_def weight_fold_total by (simp add: ds_def comp_def)
  have "distinct (map fst ds)" using dist by (simp add: ds_def comp_def)
  moreover have "(ColorRegion.id' region, hslDistance ph (centroidHsl region)) \<in> set ds"
    using mem by (auto simp: ds_def)
  ultimately have reg: "snd res = W (hslDistance ph (centroidHsl region))"
    unfolding res_def by (rule weight_fold_present)
  have pos: "0 < fst res" unfolding tot
    by (rule sum_list_pos[OF ne]) (simp add: W_def falloffWeight_pos)
  have "regionMaskAt (r, g, b, a) region regions sharpness False
      = (case minDistOf ds of
           None \<Rightarrow> Inr 0
         | Some minDist \<Rightarrow>
             (case fold (\<lambda>(regionId, dist) (totalWeight, regionWeight).
                (totalWeight + falloffWeight minDist fd dist,
                 if regionId = ColorRegion.id' region then falloffWeight minDist fd dist
                 else regionWeight)) ds (0, 0) of
                (totalWeight, regionWeight) \<Rightarrow>
                  Inr (if totalWeight > 0 then regionWeight / totalWeight else 0)))"
    unfolding regionMaskAt_def prod.case Let_def soft_step ds_def ph_def fd_def
    using opaque by simp
  then have "regionMaskAt (r, g, b, a) region regions sharpness False
      = Inr (if fst res > 0 then snd res / fst res else 0)"
    unfolding m option.case res_def W_def by (simp add: case_prod_beta)
  then show ?thesis using pos reg tot
    unfolding W_def fd_def ph_def by auto
  qed
  then show ?thesis by blast
qed

text \<open>
  C1, amended: for every buffer, every sharpness and every non-empty list of regions
  with pairwise different ids, the soft-mask weights that the regions give to a pixel
  sum to 1 when the alpha of the pixel is at least 128 and to 0 when it is below 128.
\<close>

theorem soft_mask_partition_of_unity:
  assumes "regions \<noteq> []" "distinct (map ColorRegion.id' regions)" "i < length (data imageData)"
  shows "\<exists>ws. maskWeights imageData regions sharpness False i = map Inr ws
            \<and> sum_list ws = (if unat (alphaOf (data imageData ! i)) \<ge> 128 then 1 else 0)"
proof -
  obtain r g b a where px: "data imageData ! i = (r, g, b, a)" by (cases "data imageData ! i") auto
  have at: "maskWeights imageData regions sharpness False i
       = map (\<lambda>region. regionMaskAt (r, g, b, a) region regions sharpness False) regions"
    using maskWeights_at[of regions False i imageData sharpness] assms(3) px by simp
  show ?thesis
  proof (cases "unat a < 128")
    case True
    then have "maskWeights imageData regions sharpness False i = map Inr (map (\<lambda>region. 0) regions)"
      unfolding at regionMaskAt_def by (simp add: Let_def comp_def)
    moreover have "sum_list (map (\<lambda>region. 0 :: real) regions) = 0" by simp
    ultimately show ?thesis using True unfolding px alphaOf_def
      by (intro exI[of _ "map (\<lambda>region. 0) regions"] conjI) simp_all
  next
    case False
    from regionMaskAt_soft[OF False assms(1,2), of r g b sharpness]
    obtain W :: "ColorRegion \<Rightarrow> real" where
      w: "\<forall>region \<in> set regions. regionMaskAt (r, g, b, a) region regions sharpness False
            = Inr (W region / sum_list (map W regions))" 
       and wpos: "\<forall>region. 0 < W region"
      using falloffWeight_pos by meson
    have "maskWeights imageData regions sharpness False i
        = map Inr (map (\<lambda>region. W region / sum_list (map W regions)) regions)"
      unfolding at using w by (simp add: comp_def)
    moreover have "0 < sum_list (map W regions)"
      by (rule sum_list_pos[OF assms(1)]) (simp add: wpos)
    then have "sum_list (map (\<lambda>region. W region / sum_list (map W regions)) regions) = 1"
      unfolding sum_list_divide by simp
    ultimately show ?thesis using False unfolding px alphaOf_def
      by (intro exI[of _ "map (\<lambda>region. W region / sum_list (map W regions)) regions"] conjI)
        simp_all
  qed
qed

lemma closest_mem:
  "fold (\<lambda>curr mn. if snd curr < snd mn then curr else mn) ds d0 \<in> set (d0 # ds)"
  by (induction ds arbitrary: d0) (auto split: if_splits)

lemma one_hot:
  assumes "distinct (map f xs)" "j < length xs"
  shows "map (\<lambda>x. if f (xs ! j) = f x then 1 else 0 :: real) xs = (replicate (length xs) 0)[j := 1]"
proof (rule nth_equalityI)
  show "length (map (\<lambda>x. if f (xs ! j) = f x then 1 else 0 :: real) xs)
      = length ((replicate (length xs) (0 :: real))[j := 1])" by simp
next
  fix k assume "k < length (map (\<lambda>x. if f (xs ! j) = f x then 1 else 0 :: real) xs)"
  then have k: "k < length xs" by simp
  have "(f (xs ! j) = f (xs ! k)) = (j = k)"
    using nth_eq_iff_index_eq[OF assms(1), of j k] assms(2) k by simp
  then show "map (\<lambda>x. if f (xs ! j) = f x then 1 else 0 :: real) xs ! k
      = (replicate (length xs) 0)[j := 1] ! k"
    using k assms(2) by (auto simp: nth_list_update)
qed

text \<open>
  C2, amended: for every buffer and every non-empty list of regions with pairwise
  different ids, the hard-mask weights that the regions give to a pixel of alpha at
  least 128 are 1 for exactly one region and 0 for all others; a pixel of alpha below
  128 has weight 0 in every region.
\<close>

theorem hard_mask_partition:
  assumes "regions \<noteq> []" "distinct (map ColorRegion.id' regions)" "i < length (data imageData)"
  shows "if unat (alphaOf (data imageData ! i)) \<ge> 128
         then (\<exists>j<length regions. maskWeights imageData regions sharpness True i
                   = map Inr ((replicate (length regions) 0)[j := 1]))
         else maskWeights imageData regions sharpness True i
                   = map Inr (replicate (length regions) 0)"
proof -
  obtain r g b a where px: "data imageData ! i = (r, g, b, a)" by (cases "data imageData ! i") auto
  have at: "maskWeights imageData regions sharpness True i
       = map (\<lambda>region. regionMaskAt (r, g, b, a) region regions sharpness True) regions"
    using maskWeights_at[of regions True i imageData sharpness] assms(1,3) px by simp
  show ?thesis
  proof (cases "unat a < 128")
    case True
    then have "maskWeights imageData regions sharpness True i = map Inr (map (\<lambda>region. 0) regions)"
      unfolding at regionMaskAt_def by (simp add: Let_def comp_def)
    also have "map (\<lambda>region. 0 :: real) regions = replicate (length regions) 0"
      by (simp add: map_replicate_const)
    finally show ?thesis using True unfolding px alphaOf_def by simp
  next
    case False
    define ds where "ds = map (\<lambda>otherRegion. (ColorRegion.id' otherRegion,
        hslDistance (rgbToHsl (num r) (num g) (num b)) (centroidHsl otherRegion))) regions"
    obtain d0 ds' where dsc: "ds = d0 # ds'" using assms(1) unfolding ds_def by (cases regions) auto
    define closest where "closest = fold (\<lambda>curr mn. if snd curr < snd mn then curr else mn) ds' d0"
    have "closest \<in> set ds" unfolding closest_def dsc by (rule closest_mem)
    then obtain j where j: "j < length regions" "fst closest = ColorRegion.id' (regions ! j)"
      unfolding ds_def by (auto simp: in_set_conv_nth)
    have each: "regionMaskAt (r, g, b, a) region regions sharpness True
        = Inr (if fst closest = ColorRegion.id' region then 1 else 0)" for region
      unfolding regionMaskAt_def prod.case Let_def using False
      by (simp add: ds_def[symmetric] dsc closest_def)
    have "maskWeights imageData regions sharpness True i
        = map Inr (map (\<lambda>region. if ColorRegion.id' (regions ! j) = ColorRegion.id' region then 1 else 0) regions)"
      unfolding at each j(2) by (simp add: comp_def)
    also have "map (\<lambda>region. if ColorRegion.id' (regions ! j) = ColorRegion.id' region then 1 else 0 :: real) regions
        = (replicate (length regions) 0)[j := 1]"
      by (rule one_hot[OF assms(2) j(1)])
    finally show ?thesis using False j(1) unfolding px alphaOf_def by auto
  qed
qed

subsection \<open>Concrete masks\<close>

lemma hsl_black: "rgbToHsl (num 0) (num 0) (num 0) = (0, 0, 0)"
  by (simp add: rgbToHsl_def num_def Let_def)

lemma dist_self: "hslDistance (0, 0, 0) (0, 0, 0) = 0"
  by (simp add: hslDistance_def)

lemma dist_ten: "hslDistance (0, 0, 0) (0, 0, 10) = 10"
proof -
  have "sqrt 100 = sqrt (10\<^sup>2)" by simp
  also have "\<dots> = 10" by (simp only: real_sqrt_abs abs_numeral)
  finally show ?thesis by (simp add: hslDistance_def)
qed

lemma twice_fraction_less_1:
  fixes e :: real
  assumes "0 < e" "e < 1"
  shows "e / (1 + e) + e / (1 + e) < 1"
proof -
  have "e / (1 + e) + e / (1 + e) = (e + e) / (1 + e)" by (simp add: add_divide_distrib)
  also have "\<dots> < 1" using assms by simp
  finally show ?thesis .
qed

text \<open>
  C1, as stated, fails: over the empty list of regions the weights of an opaque pixel
  sum to 0, and two regions that share an id both get the weight of the later one, so
  that the sum is not 1.
\<close>

theorem soft_mask_counterexample:
  "maskWeights \<lparr>width = 1, height = 1, data = [(0, 0, 0, 255)]\<rparr> [] (4 / 5) False 0 = []
   \<and> maskWeights \<lparr>width = 1, height = 1, data = [(0, 0, 0, 255)]\<rparr>
        [\<lparr>ColorRegion.id' = ''region-0'', name = ''Dark Gray'', centroidHsl = (0, 0, 0),
           targetColor = None, pixelCount = 1\<rparr>,
         \<lparr>ColorRegion.id' = ''region-0'', name = ''Dark Gray'', centroidHsl = (0, 0, 10),
           targetColor = None, pixelCount = 0\<rparr>] (4 / 5) False 0
       = [Inr (exp (- (5 / 22)) / (1 + exp (- (5 / 22)))),
          Inr (exp (- (5 / 22)) / (1 + exp (- (5 / 22))))]
   \<and> exp (- (5 / 22)) / (1 + exp (- (5 / 22))) + exp (- (5 / 22)) / (1 + exp (- (5 / 22)))
       \<noteq> (1 :: real)"
proof -
  have e: "exp (- (5 / 22)) < (1 :: real)" by simp
  have pos: "0 < exp (- (5 / 22) :: real)" "0 < 1 + exp (- (5 / 22) :: real)"
    by (simp_all add: add_pos_pos)
  have ne: "exp (- (5 / 22)) / (1 + exp (- (5 / 22))) + exp (- (5 / 22)) / (1 + exp (- (5 / 22)))
       \<noteq> (1 :: real)"
    using twice_fraction_less_1[OF pos(1) e] by simp
  show ?thesis using ne pos(2)
    by (simp add: maskWeights_def generateRegionMask_def regionMaskAt_def hsl_black dist_self
        dist_ten minDistOf_def Let_def)
qed

text \<open>
  C2, as stated, fails: a transparent pixel has weight 0 in every region, and two
  regions that share an id both get weight 1.
\<close>

theorem hard_mask_counterexample:
  "maskWeights \<lparr>width = 1, height = 1, data = [(0, 0, 0, 0)]\<rparr>
        [\<lparr>ColorRegion.id' = ''region-0'', name = ''Dark Gray'', centroidHsl = (0, 0, 0),
           targetColor = None, pixelCount = 1\<rparr>,
         \<lparr>ColorRegion.id' = ''region-1'', name = ''Dark Gray'', centroidHsl = (0, 0, 10),
           targetColor = None, pixelCount = 0\<rparr>] (4 / 5) True 0
       = [Inr 0, Inr 0]
   \<and> maskWeights \<lparr>width = 1, height = 1, data = [(0, 0, 0, 255)]\<rparr>
        [\<lparr>ColorRegion.id' = ''region-0'', name = ''Dark Gray'', centroidHsl = (0, 0, 0),
           targetColor = None, pixelCount = 1\<rparr>,
         \<lparr>ColorRegion.id' = ''region-0'', name = ''Dark Gray'', centroidHsl = (0, 0, 10),
           targetColor = None, pixelCount = 0\<rparr>] (4 / 5) True 0
       = [Inr 1, Inr 1]"
  by (simp add: maskWeights_def generateRegionMask_def regionMaskAt_def hsl_black dist_self
        dist_ten Let_def)

theorem soft_mask_partition_of_unity_witness:
  "twoRegions \<noteq> [] \<and> distinct (map ColorRegion.id' twoRegions)
   \<and> 0 < length (data onePixelImage)
   \<and> (\<exists>ws. maskWeights onePixelImage twoRegions (4 / 5) False 0 = map Inr ws
            \<and> sum_list ws = (if unat (alphaOf (data onePixelImage ! 0)) \<ge> 128 then 1 else 0))"
proof -
  have h: "twoRegions \<noteq> []" "distinct (map ColorRegion.id' twoRegions)"
    "0 < length (data onePixelImage)"
    by (simp_all add: twoRegions_def onePixelImage_def)
  show ?thesis using h soft_mask_partition_of_unity[OF h, of "4 / 5"] by simp
qed

theorem hard_mask_partition_witness:
  "twoRegions \<noteq> [] \<and> distinct (map ColorRegion.id' twoRegions)
   \<and> 0 < length (data onePixelImage)
   \<and> (if unat (alphaOf (data onePixelImage ! 0)) \<ge> 128
         then (\<exists>j<length twoRegions. maskWeights onePixelImage twoRegions (4 / 5) True 0
                   = map Inr ((replicate (length twoRegions) 0)[j := 1]))
         else maskWeights onePixelImage twoRegions (4 / 5) True 0
                   = map Inr (replicate (length twoRegions) 0))"
proof -
  have h: "twoRegions \<noteq> []" "distinct (map ColorRegion.id' twoRegions)"
    "0 < length (data onePixelImage)"
    by (simp_all add: twoRegions_def onePixelImage_def)
  show ?thesis using h hard_mask_partition[OF h, of "4 / 5"] by simp
qed

section \<open>Region detection\<close>

lemma length_fold_append:
  "length (fold (\<lambda>i cs. cs @ [f cs]) is cs0) = length cs0 + length is"
  by (induction "is" arbitrary: cs0) auto

lemma length_initializeCentroids:
  assumes "pixels \<noteq> []" "1 \<le> k"
  shows "length (initializeCentroids random pixels k) = k"
  using assms unfolding initializeCentroids_def by (simp add: length_fold_append)

lemma length_fold_update:
  "length (fold (\<lambda>j cs. cs[j := g j]) js cs0) = length cs0"
  by (induction js arbitrary: cs0) auto

lemma length_iterateCentroids:
  "length (iterateCentroids left random n pixels regionCount centroids) = length centroids"
proof (induction left arbitrary: n centroids)
  case 0
  then show ?case by simp
next
  case (Suc left)
  show ?case
    by (simp add: Let_def Suc.IH length_fold_update split: prod.splits)
qed

lemma sorted_desc_sort_key:
  "sorted_wrt (\<lambda>a b. pixelCount a \<ge> pixelCount b)
     (sort_key (\<lambda>region. - int (pixelCount region)) regions)"
proof -
  have "sorted (map (\<lambda>region. - int (pixelCount region))
     (sort_key (\<lambda>region. - int (pixelCount region)) regions))"
    by (rule sorted_sort_key)
  then show ?thesis by (simp add: sorted_map)
qed

text \<open>
  With at least one sampled pixel, the detection returns as many regions as were asked
  for, named after their centroids, the largest first.
\<close>

lemma detectColorRegions_nonempty:
  assumes "samplePixelsAsHsl imageData \<noteq> []"
      and "regionCount = 2 \<or> regionCount = 3 \<or> regionCount = 4"
      and "\<forall>n. 0 \<le> random n \<and> random n < 1"
  shows "length (detectColorRegions random imageData regionCount) = regionCount
         \<and> list_all (\<lambda>region. name region = generateRegionName (centroidHsl region))
              (detectColorRegions random imageData regionCount)
         \<and> sorted_wrt (\<lambda>a b. pixelCount a \<ge> pixelCount b)
              (detectColorRegions random imageData regionCount)"
proof -
  define pixels where "pixels = samplePixelsAsHsl imageData"
  define centroids where "centroids =
     iterateCentroids 10 random 1 pixels regionCount (initializeCentroids random pixels regionCount)"
  define counts where "counts = fold (\<lambda>assignment cs. cs[assignment := cs ! assignment + 1])
                          (assignPixelsToCentroids pixels centroids) (replicate regionCount (0 :: nat))"
  define regions where "regions = map (\<lambda>(index, centroid).
                                \<lparr>ColorRegion.id' = ''region-'' @ decimal index,
                                 name = generateRegionName (fst centroid),
                                 centroidHsl = fst centroid,
                                 targetColor = None,
                                 pixelCount = counts ! index\<rparr>)
                             (zip [0 ..< length centroids] centroids)"
  have ne: "pixels \<noteq> []" using assms(1) by (simp add: pixels_def)
  have k: "1 \<le> regionCount" using assms(2) by auto
  have det: "detectColorRegions random imageData regionCount
      = sort_key (\<lambda>region. - int (pixelCount region)) regions"
    using ne unfolding detectColorRegions_def Let_def pixels_def[symmetric]
      centroids_def[symmetric] counts_def[symmetric] regions_def[symmetric] by simp
  have len: "length centroids = regionCount"
    unfolding centroids_def length_iterateCentroids
    by (rule length_initializeCentroids[OF ne k])
  have "length regions = regionCount" unfolding regions_def using len by simp
  then have 1: "length (detectColorRegions random imageData regionCount) = regionCount"
    unfolding det by simp
  have "list_all (\<lambda>region. name region = generateRegionName (centroidHsl region)) regions"
    unfolding regions_def by (auto simp: list_all_iff)
  then have 2: "list_all (\<lambda>region. name region = generateRegionName (centroidHsl region))
              (detectColorRegions random imageData regionCount)"
    unfolding det by (simp add: list_all_iff)
  have 3: "sorted_wrt (\<lambda>a b. pixelCount a \<ge> pixelCount b)
              (detectColorRegions random imageData regionCount)"
    unfolding det by (rule sorted_desc_sort_key)
  show ?thesis using 1 2 3 by simp
qed

text \<open>
  C8, as stated, fails: when no sampled pixel is opaque the function returns no region
  at all.
\<close>

theorem detectColorRegions_transparent:
  "detectColorRegions (\<lambda>n. 0) \<lparr>width = 1, height = 1, data = [(255, 0, 0, 0)]\<rparr> 2 = []"
  by (simp add: detectColorRegions_def samplePixelsAsHsl_def)

text \<open>The sample is empty exactly when every sampled pixel is transparent.\<close>

lemma everyNth_map: "everyNth n (map f xs) = map f (everyNth n xs)"
  by (induction n xs rule: everyNth.induct) (simp_all add: drop_map)

lemma samplePixelsAsHsl_empty:
  "(samplePixelsAsHsl imageData = [])
     = list_all (\<lambda>px. unat (alphaOf px) < 128) (everyNth 4 (data imageData))"
proof -
  define zs where "zs = zip [0 ..< length (data imageData)] (data imageData)"
  have "data imageData = map snd zs" by (simp add: zs_def)
  then have e: "everyNth 4 (data imageData) = map snd (everyNth 4 zs)"
    by (simp add: everyNth_map)
  have "(samplePixelsAsHsl imageData = [])
      = (filter (\<lambda>(i, (r, g, b, a)). \<not> unat a < 128) (everyNth 4 zs) = [])"
    unfolding samplePixelsAsHsl_def zs_def by simp
  also have "\<dots> = list_all (\<lambda>px. unat (alphaOf px) < 128) (map snd (everyNth 4 zs))"
    by (auto simp: filter_empty_conv list_all_iff alphaOf_def)
  finally show ?thesis unfolding e .
qed

text \<open>
  C8, amended: for a region count of 2, 3 or 4 and whatever numbers \<open>Math.random\<close>
  returns, \<open>detectColorRegions\<close> returns no region when every sampled pixel (every
  fourth pixel of the buffer) has alpha below 128; otherwise it returns exactly as many
  regions as were asked for, each named by \<open>generateRegionName\<close> of its centroid, in
  descending order of \<open>pixelCount\<close>.
\<close>

theorem detectColorRegions_regions:
  assumes "regionCount = 2 \<or> regionCount = 3 \<or> regionCount = 4"
      and "\<forall>n. 0 \<le> random n \<and> random n < 1"
  shows "if list_all (\<lambda>px. unat (alphaOf px) < 128) (everyNth 4 (data imageData))
         then detectColorRegions random imageData regionCount = []
         else length (detectColorRegions random imageData regionCount) = regionCount
              \<and> list_all (\<lambda>region. name region = generateRegionName (centroidHsl region))
                   (detectColorRegions random imageData regionCount)
              \<and> sorted_wrt (\<lambda>a b. pixelCount a \<ge> pixelCount b)
                   (detectColorRegions random imageData regionCount)"
proof (cases "samplePixelsAsHsl imageData = []")
  case True
  then have "detectColorRegions random imageData regionCount = []"
    unfolding detectColorRegions_def by simp
  then show ?thesis using True unfolding samplePixelsAsHsl_empty by simp
next
  case False
  from detectColorRegions_nonempty[OF False assms]
  show ?thesis using False unfolding samplePixelsAsHsl_empty by simp
qed

theorem detectColorRegions_regions_witness:
  "\<not> list_all (\<lambda>px. unat (alphaOf px) < 128) (everyNth 4 (data onePixelImage))
   \<and> length (detectColorRegions (\<lambda>n. 0) onePixelImage 2) = 2
   \<and> list_all (\<lambda>region. name region = generateRegionName (centroidHsl region))
         (detectColorRegions (\<lambda>n. 0) onePixelImage 2)
   \<and> sorted_wrt (\<lambda>a b. pixelCount a \<ge> pixelCount b)
         (detectColorRegions (\<lambda>n. 0) onePixelImage 2)"
proof -
  have o: "\<not> list_all (\<lambda>px. unat (alphaOf px) < 128) (everyNth 4 (data onePixelImage))"
    by (simp add: onePixelImage_def alphaOf_def)
  have k: "(2 :: nat) = 2 \<or> (2 :: nat) = 3 \<or> (2 :: nat) = 4" by simp
  have r: "\<forall>n :: nat. (0 :: real) \<le> 0 \<and> (0 :: real) < 1" by simp
  from detectColorRegions_regions[OF k r, of onePixelImage] o show ?thesis by simp
qed

subsection \<open>Detection on the two-tone row\<close>

lemma hslDistance_gray: "hslDistance (0, 0, x) (0, 0, y) = \<bar>x - y\<bar>"
  by (simp add: hslDistance_def)

lemma hsl_white: "rgbToHsl (num 255) (num 255) (num 255) = (0, 0, 100)"
  by (simp add: rgbToHsl_def num_def Let_def)

lemma upt5: "[0..<5] = [0, 1, 2, 3, 4]"
  by (simp add: upt_rec)

lemma sample_twoTone:
  "samplePixelsAsHsl twoToneImage = [((0, 0, 0), 0), ((0, 0, 100), 4)]"
  by (simp add: samplePixelsAsHsl_def twoToneImage_def upt5 hsl_white hsl_black)

lemma init_0: "initializeCentroids (\<lambda>n. 0) [((0, 0, 0), 0), ((0, 0, 100), 4)] 2
   = [((0, 0, 0), 0), ((0, 0, 100), 4)]"
  by (simp add: initializeCentroids_def randomPixel_def farthestPixel_def hslDistance_gray
      minInf_def greaterInf_def upt_rec)

lemma init_1: "initializeCentroids (\<lambda>n. 1 / 2) [((0, 0, 0), 0), ((0, 0, 100), 4)] 2
   = [((0, 0, 100), 4), ((0, 0, 0), 0)]"
  by (simp add: initializeCentroids_def randomPixel_def farthestPixel_def hslDistance_gray
      minInf_def greaterInf_def upt_rec)

lemma assign_a: "assignPixelsToCentroids [((0, 0, 0), 0), ((0, 0, 100), 4)] [((0, 0, 0), i), ((0, 0, 100), j)]
   = [0, 1]"
  by (simp add: assignPixelsToCentroids_def hslDistance_gray lessInf_def upt_rec)

lemma assign_b: "assignPixelsToCentroids [((0, 0, 0), 0), ((0, 0, 100), 4)] [((0, 0, 100), i), ((0, 0, 0), j)]
   = [1, 0]"
  by (simp add: assignPixelsToCentroids_def hslDistance_gray lessInf_def upt_rec)

lemma recalc_a: "recalculateCentroids random n [((0, 0, 0), 0), ((0, 0, 100), 4)] [0, Suc 0] 2
   = ([((0, 0, 0), 0), ((0, 0, 100), 0)], n)"
  by (simp add: recalculateCentroids_def accumulate_def upt_rec Math_atan2_def numeral_2_eq_2)

lemma recalc_b: "recalculateCentroids random n [((0, 0, 0), 0), ((0, 0, 100), 4)] [Suc 0, 0] 2
   = ([((0, 0, 100), 0), ((0, 0, 0), 0)], n)"
  by (simp add: recalculateCentroids_def accumulate_def upt_rec Math_atan2_def numeral_2_eq_2)

lemma iterate_a:
  "iterateCentroids (Suc left) random n [((0, 0, 0), 0), ((0, 0, 100), 4)] 2
     [((0, 0, 0), 0), ((0, 0, 100), 4)] = [((0, 0, 0), 0), ((0, 0, 100), 0)]"
  by (simp add: assign_a recalc_a hslDistance_gray upt_rec)

lemma iterate_b:
  "iterateCentroids (Suc left) random n [((0, 0, 0), 0), ((0, 0, 100), 4)] 2
     [((0, 0, 100), 4), ((0, 0, 0), 0)] = [((0, 0, 100), 0), ((0, 0, 0), 0)]"
  by (simp add: assign_b recalc_b hslDistance_gray upt_rec)

lemma ten: "(10 :: nat) = Suc 9" by simp

lemma detect_a:
  "detectColorRegions (\<lambda>n. 0) twoToneImage 2 =
     [\<lparr>ColorRegion.id' = ''region-0'', name = ''Dark Gray'', centroidHsl = (0, 0, 0),
        targetColor = None, pixelCount = 1\<rparr>,
      \<lparr>ColorRegion.id' = ''region-1'', name = ''Light Gray'', centroidHsl = (0, 0, 100),
        targetColor = None, pixelCount = 1\<rparr>]"
  unfolding detectColorRegions_def sample_twoTone Let_def init_0 ten iterate_a assign_a
  by (simp add: upt_rec generateRegionName_def numeral_2_eq_2)

lemma detect_b:
  "detectColorRegions (\<lambda>n. 1 / 2) twoToneImage 2 =
     [\<lparr>ColorRegion.id' = ''region-0'', name = ''Light Gray'', centroidHsl = (0, 0, 100),
        targetColor = None, pixelCount = 1\<rparr>,
      \<lparr>ColorRegion.id' = ''region-1'', name = ''Dark Gray'', centroidHsl = (0, 0, 0),
        targetColor = None, pixelCount = 1\<rparr>]"
  unfolding detectColorRegions_def sample_twoTone Let_def init_1 ten iterate_b assign_b
  by (simp add: upt_rec generateRegionName_def numeral_2_eq_2)

section \<open>Dependence on the random source\<close>

text \<open>
  Of the entry points, only \<open>detectColorRegions\<close> reads \<open>Math.random\<close>, and its result
  does change with it: on the two-tone row the first random number decides which of
  the two regions is \<open>region-0\<close>.
\<close>

lemma detectColorRegions_depends_on_random:
  "detectColorRegions (\<lambda>n. 0) twoToneImage 2 \<noteq> detectColorRegions (\<lambda>n. 1 / 2) twoToneImage 2"
  by (simp add: detect_a detect_b)

end
